theory Spec2Isabelle
  imports Complex_Main
begin

section \<open>Bank reconciliation (scripts/reconcile\_bank.py)\<close>

text \<open>
  A shallow embedding of the bank reconciliation module: the period loader
  (\<open>load_cash_ledger\<close>, \<open>load_bank_statement\<close>), the two-pass matcher
  (\<open>match_transactions\<close>), the sign classifier, the keyword categoriser with the
  adjusting entries built from it, and the reconciliation arithmetic.

  Conventions of the embedding.
  \<^item> A Python float that is a number is a \<open>rat\<close>: arithmetic on numbers is exact,
    so the rounding of IEEE doubles to 53 bits is outside the model. Where pandas can
    leave NaN behind (the \<open>Balance\<close> column of either table, the \<open>Debit\<close> and
    \<open>Credit\<close> columns of the bank statement and the amount made from them) the value
    is a \<open>rat option\<close> and \<open>None\<close> is NaN. The running totals of the adjusting
    entries are doubles with overflow: a \<open>pyfloat\<close> is a number, an infinity or NaN.
  \<^item> A pandas timestamp is an \<open>int\<close> counting nanoseconds; \<open>None\<close> is NaT.
  \<^item> A DataFrame is the list of its rows in row order; after \<open>reset_index\<close> the
    index label of a row is its position. A filtered frame keeps the labels, so it is a
    list of (label, row) pairs.
  \<^item> A string is a list of 8-bit characters; case mapping and whitespace are those of
    ASCII.
\<close>

subsection \<open>Numbers, timestamps and strings\<close>

text \<open>\<open>round(x, 2)\<close>: to two decimals, ties to the even neighbour.\<close>

definition py_round2 :: "rat \<Rightarrow> rat" where
  "py_round2 x =
     (let y = x * 100; f = \<lfloor>y\<rfloor>; d = y - of_int f
      in of_int (if d < 1 / 2 then f else if 1 / 2 < d then f + 1
                 else if even f then f else f + 1) / 100)"

text \<open>Float arithmetic where an operand may be NaN: NaN propagates, and every
  comparison with NaN is false.\<close>

definition fadd :: "rat option \<Rightarrow> rat option \<Rightarrow> rat option" where
  "fadd a b = (case a of None \<Rightarrow> None | Some x \<Rightarrow> (case b of None \<Rightarrow> None | Some y \<Rightarrow> Some (x + y)))"

definition fsub :: "rat option \<Rightarrow> rat option \<Rightarrow> rat option" where
  "fsub a b = (case a of None \<Rightarrow> None | Some x \<Rightarrow> (case b of None \<Rightarrow> None | Some y \<Rightarrow> Some (x - y)))"

definition fround2 :: "rat option \<Rightarrow> rat option" where
  "fround2 a = map_option py_round2 a"

definition feq :: "rat option \<Rightarrow> rat \<Rightarrow> bool" where
  "feq a c = (case a of None \<Rightarrow> False | Some x \<Rightarrow> x = c)"

definition ns_per_day :: int where
  "ns_per_day = 86400000000000"

text \<open>\<open>df['Date'] < t\<close> and \<open>df['Date'] <= t\<close>: false on NaT.\<close>

definition date_lt :: "int option \<Rightarrow> int \<Rightarrow> bool" where
  "date_lt d t = (case d of None \<Rightarrow> False | Some x \<Rightarrow> x < t)"

definition date_le :: "int option \<Rightarrow> int \<Rightarrow> bool" where
  "date_le d t = (case d of None \<Rightarrow> False | Some x \<Rightarrow> x \<le> t)"

definition date_ge :: "int option \<Rightarrow> int \<Rightarrow> bool" where
  "date_ge d t = (case d of None \<Rightarrow> False | Some x \<Rightarrow> t \<le> x)"

definition ascii_upper :: string where
  "ascii_upper = ''ABCDEFGHIJKLMNOPQRSTUVWXYZ''"

definition ascii_lower :: string where
  "ascii_lower = ''abcdefghijklmnopqrstuvwxyz''"

definition lower_char :: "char \<Rightarrow> char" where
  "lower_char c = (case map_of (zip ascii_upper ascii_lower) c of Some d \<Rightarrow> d | None \<Rightarrow> c)"

definition upper_char :: "char \<Rightarrow> char" where
  "upper_char c = (case map_of (zip ascii_lower ascii_upper) c of Some d \<Rightarrow> d | None \<Rightarrow> c)"

text \<open>\<open>str.lower()\<close> and \<open>str.upper()\<close>.\<close>

definition lower :: "string \<Rightarrow> string" where
  "lower s = map lower_char s"

definition upper :: "string \<Rightarrow> string" where
  "upper s = map upper_char s"

text \<open>\<open>str.strip()\<close>: the ASCII whitespace characters are tab, line feed, vertical
  tab, form feed, carriage return, the four separators 0x1C to 0x1F, and space.\<close>

definition is_space :: "char \<Rightarrow> bool" where
  "is_space c = (c \<in> set [CHR 0x09, CHR 0x0A, CHR 0x0B, CHR 0x0C, CHR 0x0D,
                           CHR 0x1C, CHR 0x1D, CHR 0x1E, CHR 0x1F, CHR 0x20])"

definition strip :: "string \<Rightarrow> string" where
  "strip s = rev (dropWhile is_space (rev (dropWhile is_space s)))"

text \<open>\<open>s.startswith(p)\<close> and the substring test \<open>sub in s\<close>.\<close>

fun starts_with :: "string \<Rightarrow> string \<Rightarrow> bool" where
  "starts_with [] s = True"
| "starts_with (p # ps) [] = False"
| "starts_with (p # ps) (c # cs) = (p = c \<and> starts_with ps cs)"

fun str_in :: "string \<Rightarrow> string \<Rightarrow> bool" where
  "str_in sub [] = (sub = [])"
| "str_in sub (c # cs) = (starts_with sub (c # cs) \<or> str_in sub cs)"

subsection \<open>Constants\<close>

definition BANK_ACCOUNT_CODE :: string where "BANK_ACCOUNT_CODE = ''1020''"
definition INTEREST_INCOME_CODE :: string where "INTEREST_INCOME_CODE = ''4110''"
definition AR_CODE :: string where "AR_CODE = ''1100''"
definition BANK_CHARGES_CODE :: string where "BANK_CHARGES_CODE = ''5920''"
definition INSURANCE_CODE :: string where "INSURANCE_CODE = ''5700''"
definition COMMS_CODE :: string where "COMMS_CODE = ''5220''"
definition LOAN_CODE :: string where "LOAN_CODE = ''2100''"
definition MISC_EXPENSE_CODE :: string where "MISC_EXPENSE_CODE = ''5900''"
definition OTHER_INCOME_CODE :: string where "OTHER_INCOME_CODE = ''4199''"

definition DATE_PROXIMITY_DAYS :: int where "DATE_PROXIMITY_DAYS = 3"

subsection \<open>Data loading\<close>

text \<open>
  A cell of a numeric column as \<open>pd.to_numeric(..., errors='coerce')\<close> sees it: either
  content it reads as a number, or anything else (blank, free text). A cell of the date
  column as \<open>pd.to_datetime(..., errors='coerce')\<close> sees it.
\<close>

datatype num_cell = Numeric rat | NonNumeric

datatype date_cell = Dated int | NotADate

record raw_row =
  raw_Date :: date_cell
  raw_Reference :: string
  raw_Description :: string
  raw_Debit :: num_cell
  raw_Credit :: num_cell
  raw_Balance :: num_cell

record ledger_row =
  Date :: "int option"
  Reference :: string
  Description :: string
  Debit :: rat
  Credit :: rat
  Balance :: "rat option"

text \<open>A period row: a ledger row with the column \<open>_amount\<close> added.\<close>

record txn = ledger_row +
  amount :: rat

fun to_numeric :: "num_cell \<Rightarrow> rat option" where
  "to_numeric (Numeric q) = Some q"
| "to_numeric NonNumeric = None"

fun fillna :: "rat \<Rightarrow> rat option \<Rightarrow> rat" where
  "fillna v None = v"
| "fillna v (Some q) = q"

fun to_datetime :: "date_cell \<Rightarrow> int option" where
  "to_datetime (Dated t) = Some t"
| "to_datetime NotADate = None"

text \<open>The five column assignments at the head of \<open>load_cash_ledger\<close>.\<close>

definition coerce_row :: "raw_row \<Rightarrow> ledger_row" where
  "coerce_row r =
     \<lparr> Date = to_datetime (raw_Date r),
       Reference = strip (raw_Reference r),
       Description = raw_Description r,
       Debit = fillna 0 (to_numeric (raw_Debit r)),
       Credit = fillna 0 (to_numeric (raw_Credit r)),
       Balance = to_numeric (raw_Balance r) \<rparr>"

text \<open>
  \<open>utils/excel_reader.filter_by_period\<close>. Its own \<open>pd.to_datetime\<close> on the
  date column changes nothing, the loaders having coerced the column already.
\<close>

definition filter_by_period :: "'r list \<Rightarrow> ('r \<Rightarrow> int option) \<Rightarrow> int \<Rightarrow> int \<Rightarrow> 'r list" where
  "filter_by_period df date_column start_date end_date =
     filter (\<lambda>r. date_ge (date_column r) start_date \<and> date_le (date_column r) end_date) df"

definition with_amount :: "ledger_row \<Rightarrow> rat \<Rightarrow> txn" where
  "with_amount r a =
     \<lparr> Date = Date r, Reference = Reference r, Description = Description r,
       Debit = Debit r, Credit = Credit r, Balance = Balance r, amount = a \<rparr>"

text \<open>
  \<open>load_cash_ledger\<close>. It takes the result of \<open>read_xlsx\<close> (its error, or the
  table) and passes an error on unchanged. The result is
  (period rows, opening balance, closing balance).
\<close>

definition load_cash_ledger ::
  "'e + raw_row list \<Rightarrow> int \<Rightarrow> int \<Rightarrow> 'e + txn list \<times> rat option \<times> rat option" where
  "load_cash_ledger result period_start period_end =
     (case result of
        Inl err \<Rightarrow> Inl err
      | Inr data \<Rightarrow>
         (let df = map coerce_row data;
              pre_period = filter (\<lambda>r. date_lt (Date r) period_start) df;
              opening_balance = (if pre_period = [] then Some 0 else Balance (last pre_period));
              period_df = filter (\<lambda>r. Reference r \<noteq> ''OB'')
                            (filter_by_period df Date period_start period_end);
              at_end = filter (\<lambda>r. date_le (Date r) period_end) df;
              closing_balance =
                (if at_end \<noteq> [] then Balance (last at_end) else opening_balance)
          in Inr (map (\<lambda>r. with_amount r (Debit r - Credit r)) period_df,
                  opening_balance, closing_balance)))"

text \<open>
  The bank statement as \<open>read_xlsx\<close> returns it: \<open>Debit\<close> and \<open>Credit\<close> are
  optional columns, so the table says which of them it has; the cells of a column it
  lacks are never read.
\<close>

record bank_sheet =
  has_Debit :: bool
  has_Credit :: bool
  sheet_rows :: "raw_row list"

text \<open>
  The rows of the bank statement frame (columns prefixed \<open>s_\<close>). Unlike in the cash
  ledger, \<open>Debit\<close>, \<open>Credit\<close> and the amount can be NaN here.
\<close>

record statement_row =
  s_Date :: "int option"
  s_Reference :: string
  s_Description :: string
  s_Debit :: "rat option"
  s_Credit :: "rat option"
  s_Balance :: "rat option"

record statement_txn = statement_row +
  s_amount :: "rat option"

text \<open>
  \<open>df[c] = pd.to_numeric(df.get(c, pd.Series(dtype=float)), errors='coerce').fillna(0)\<close>
  for an optional column \<open>c\<close>. When the table has the column, its cells are coerced
  and the blanks filled with 0. When it lacks the column, \<open>df.get\<close> gives the empty
  default series; \<open>fillna\<close> runs on that empty series, and the assignment aligns it
  with the index of the frame, which leaves NaN in every row.
\<close>

definition optional_column :: "bool \<Rightarrow> num_cell \<Rightarrow> rat option" where
  "optional_column present c = (if present then Some (fillna 0 (to_numeric c)) else None)"

definition coerce_statement_row :: "bool \<Rightarrow> bool \<Rightarrow> raw_row \<Rightarrow> statement_row" where
  "coerce_statement_row with_debit with_credit r =
     \<lparr> s_Date = to_datetime (raw_Date r),
       s_Reference = strip (raw_Reference r),
       s_Description = raw_Description r,
       s_Debit = optional_column with_debit (raw_Debit r),
       s_Credit = optional_column with_credit (raw_Credit r),
       s_Balance = to_numeric (raw_Balance r) \<rparr>"

definition with_statement_amount :: "statement_row \<Rightarrow> rat option \<Rightarrow> statement_txn" where
  "with_statement_amount r a =
     \<lparr> s_Date = s_Date r, s_Reference = s_Reference r, s_Description = s_Description r,
       s_Debit = s_Debit r, s_Credit = s_Credit r, s_Balance = s_Balance r, s_amount = a \<rparr>"

text \<open>\<open>load_bank_statement\<close>, on the result of \<open>read_xlsx\<close>.\<close>

definition load_bank_statement ::
  "'e + bank_sheet \<Rightarrow> int \<Rightarrow> int \<Rightarrow> 'e + statement_txn list \<times> rat option \<times> rat option" where
  "load_bank_statement result period_start period_end =
     (case result of
        Inl err \<Rightarrow> Inl err
      | Inr sheet \<Rightarrow>
         (let df = map (coerce_statement_row (has_Debit sheet) (has_Credit sheet))
                     (sheet_rows sheet);
              pre_period = filter (\<lambda>r. date_lt (s_Date r) period_start) df;
              opening_balance = (if pre_period = [] then Some 0 else s_Balance (last pre_period));
              period_df = filter (\<lambda>r. s_Reference r \<noteq> ''OB'')
                            (filter_by_period df s_Date period_start period_end);
              at_end = filter (\<lambda>r. date_le (s_Date r) period_end) df;
              closing_balance =
                (if at_end \<noteq> [] then s_Balance (last at_end) else opening_balance)
          in Inr (map (\<lambda>r. with_statement_amount r (fsub (s_Credit r) (s_Debit r))) period_df,
                  opening_balance, closing_balance)))"

subsection \<open>Matching\<close>

text \<open>
  The matcher reads three columns of either frame: \<open>Date\<close>, \<open>Reference\<close> and
  \<open>_amount\<close>. It is modelled on rows whose amount is a number: that is every row of
  the cash ledger, and every row of a bank statement that has both optional columns.
\<close>

datatype match_kind = Exact | Probable

record match_result =
  book_idx :: nat
  bank_idx :: nat
  match_type :: match_kind

record match_state =
  book_matched :: "nat set"
  bank_matched :: "nat set"
  matched_pairs :: "match_result list"

definition add_match :: "match_state \<Rightarrow> nat \<Rightarrow> nat \<Rightarrow> match_kind \<Rightarrow> match_state" where
  "add_match st bi si k =
     \<lparr> book_matched = insert bi (book_matched st),
       bank_matched = insert si (bank_matched st),
       matched_pairs = matched_pairs st @ [\<lparr> book_idx = bi, bank_idx = si, match_type = k \<rparr>] \<rparr>"

text \<open>The test of pass 1 on a book row and a bank row.\<close>

definition exact_cond :: "txn \<Rightarrow> txn \<Rightarrow> bool" where
  "exact_cond b s =
     (upper (Reference b) = upper (Reference s) \<and> py_round2 (amount b) = py_round2 (amount s))"

text \<open>
  \<open>abs((b_date - s_date).days)\<close>: the \<open>days\<close> of a time difference is its floor in
  whole days. With NaT on either side there is no number to compare, and the test
  \<open>days_diff <= DATE_PROXIMITY_DAYS\<close> is false.
\<close>

definition days_diff :: "int option \<Rightarrow> int option \<Rightarrow> int option" where
  "days_diff b_date s_date =
     (case b_date of None \<Rightarrow> None
      | Some x \<Rightarrow> (case s_date of None \<Rightarrow> None | Some y \<Rightarrow> Some \<bar>(x - y) div ns_per_day\<bar>))"

definition probable_cond :: "txn \<Rightarrow> txn \<Rightarrow> bool" where
  "probable_cond b s =
     (py_round2 (amount b) = py_round2 (amount s) \<and>
      (case days_diff (Date b) (Date s) of None \<Rightarrow> False | Some d \<Rightarrow> d \<le> DATE_PROXIMITY_DAYS))"

text \<open>
  The inner loop of either pass: the first bank index, in row order, that is not yet
  matched and passes the test.
\<close>

definition scan_bank :: "(txn \<Rightarrow> txn \<Rightarrow> bool) \<Rightarrow> txn list \<Rightarrow> nat set \<Rightarrow> txn \<Rightarrow> nat option" where
  "scan_bank cond bank_df matched b =
     find (\<lambda>si. si \<notin> matched \<and> cond b (bank_df ! si)) [0..<length bank_df]"

definition pass1_step :: "txn list \<Rightarrow> txn list \<Rightarrow> nat \<Rightarrow> match_state \<Rightarrow> match_state" where
  "pass1_step book_df bank_df bi st =
     (case scan_bank exact_cond bank_df (bank_matched st) (book_df ! bi) of
        None \<Rightarrow> st
      | Some si \<Rightarrow> add_match st bi si Exact)"

definition pass2_step :: "txn list \<Rightarrow> txn list \<Rightarrow> nat \<Rightarrow> match_state \<Rightarrow> match_state" where
  "pass2_step book_df bank_df bi st =
     (if bi \<in> book_matched st then st
      else (case scan_bank probable_cond bank_df (bank_matched st) (book_df ! bi) of
              None \<Rightarrow> st
            | Some si \<Rightarrow> add_match st bi si Probable))"

definition init_state :: match_state where
  "init_state = \<lparr> book_matched = {}, bank_matched = {}, matched_pairs = [] \<rparr>"

definition run_passes :: "txn list \<Rightarrow> txn list \<Rightarrow> match_state" where
  "run_passes book_df bank_df =
     fold (pass2_step book_df bank_df) [0..<length book_df]
       (fold (pass1_step book_df bank_df) [0..<length book_df] init_state)"

text \<open>\<open>df[~df.index.isin(matched)]\<close>.\<close>

definition unmatched_rows :: "txn list \<Rightarrow> nat set \<Rightarrow> (nat \<times> txn) list" where
  "unmatched_rows df matched = filter (\<lambda>(i, r). i \<notin> matched) (enumerate 0 df)"

definition match_transactions ::
  "txn list \<Rightarrow> txn list \<Rightarrow> match_result list \<times> (nat \<times> txn) list \<times> (nat \<times> txn) list" where
  "match_transactions book_df bank_df =
     (let st = run_passes book_df bank_df
      in (matched_pairs st,
          unmatched_rows book_df (book_matched st),
          unmatched_rows bank_df (bank_matched st)))"

subsection \<open>Classification of unmatched rows\<close>

definition classify_book_only ::
  "(nat \<times> txn) list \<Rightarrow> (nat \<times> txn) list \<times> (nat \<times> txn) list" where
  "classify_book_only book_only_df =
     (let deposits_in_transit = filter (\<lambda>(i, r). amount r > 0) book_only_df;
          outstanding_cheques = filter (\<lambda>(i, r). amount r < 0) book_only_df
      in (deposits_in_transit, outstanding_cheques))"

definition classify_bank_only ::
  "(nat \<times> txn) list \<Rightarrow> (nat \<times> txn) list \<times> (nat \<times> txn) list" where
  "classify_bank_only bank_only_df =
     (let bank_credits = filter (\<lambda>(i, r). amount r > 0) bank_only_df;
          bank_debits = filter (\<lambda>(i, r). amount r < 0) bank_only_df
      in (bank_credits, bank_debits))"

subsection \<open>Adjusting entries\<close>

record suggestion =
  category :: string
  dr_account :: string
  dr_code :: string
  cr_account :: string
  cr_code :: string
  dr_amount :: rat
  cr_amount :: rat

record adjusting_entry = suggestion +
  date :: "int option"
  reference :: string
  description :: string

text \<open>The dash of the three category names that carry one (U+2014, in UTF-8).\<close>

definition em_dash :: string where
  "em_dash = [CHR 0xE2, CHR 0x80, CHR 0x94]"

definition mk_suggestion ::
  "string \<Rightarrow> string \<Rightarrow> string \<Rightarrow> string \<Rightarrow> string \<Rightarrow> rat \<Rightarrow> suggestion" where
  "mk_suggestion cat dra drc cra crc a =
     \<lparr> category = cat, dr_account = dra, dr_code = drc,
       cr_account = cra, cr_code = crc, dr_amount = a, cr_amount = a \<rparr>"

definition categorize_bank_item :: "string \<Rightarrow> rat \<Rightarrow> suggestion" where
  "categorize_bank_item descr amt =
     (let desc = lower descr; abs_amt = \<bar>amt\<bar>
      in if amt > 0 then
           (if str_in ''interest'' desc then
              mk_suggestion ''Bank Interest Earned''
                ''Cash at Bank'' BANK_ACCOUNT_CODE ''Interest Income'' INTEREST_INCOME_CODE abs_amt
            else if str_in ''payment'' desc \<or> str_in ''collection'' desc \<or> str_in ''transfer in'' desc then
              mk_suggestion (''Direct Credit '' @ em_dash @ '' Accounts Receivable'')
                ''Cash at Bank'' BANK_ACCOUNT_CODE ''Accounts Receivable'' AR_CODE abs_amt
            else
              mk_suggestion (''Bank Credit '' @ em_dash @ '' Investigate'')
                ''Cash at Bank'' BANK_ACCOUNT_CODE ''Other Income'' OTHER_INCOME_CODE abs_amt)
         else
           (if str_in ''charge'' desc \<or> str_in ''fee'' desc \<or> str_in ''service'' desc then
              mk_suggestion ''Bank Charges & Fees''
                ''Bank Charges & Fees'' BANK_CHARGES_CODE ''Cash at Bank'' BANK_ACCOUNT_CODE abs_amt
            else if str_in ''insurance'' desc then
              mk_suggestion (''Insurance '' @ em_dash @ '' Auto Debit'')
                ''Insurance Expense'' INSURANCE_CODE ''Cash at Bank'' BANK_ACCOUNT_CODE abs_amt
            else if str_in ''subscription'' desc \<or> str_in ''software'' desc \<or> str_in ''saas'' desc then
              mk_suggestion ''Software / Subscription''
                ''Telephone & Internet'' COMMS_CODE ''Cash at Bank'' BANK_ACCOUNT_CODE abs_amt
            else if str_in ''loan'' desc \<or> str_in ''repayment'' desc \<or> str_in ''instalment'' desc then
              mk_suggestion ''Loan Repayment''
                ''Long-term Loans'' LOAN_CODE ''Cash at Bank'' BANK_ACCOUNT_CODE abs_amt
            else if str_in ''dishonour'' desc \<or> str_in ''nsf'' desc \<or> str_in ''returned'' desc
                    \<or> str_in ''bounce'' desc then
              mk_suggestion ''Dishonoured Cheque''
                ''Accounts Receivable'' AR_CODE ''Cash at Bank'' BANK_ACCOUNT_CODE abs_amt
            else
              mk_suggestion (''Direct Debit '' @ em_dash @ '' Investigate'')
                ''Non-Operating Expense'' MISC_EXPENSE_CODE ''Cash at Bank'' BANK_ACCOUNT_CODE abs_amt))"

text \<open>
  The body of both loops of \<open>build_adjusting_entries\<close>. The function takes the
  period end and does not use it.
\<close>

definition entry_of_row :: "txn \<Rightarrow> adjusting_entry" where
  "entry_of_row row =
     (let cat = categorize_bank_item (Description row) (amount row)
      in \<lparr> category = category cat, dr_account = dr_account cat, dr_code = dr_code cat,
           cr_account = cr_account cat, cr_code = cr_code cat,
           dr_amount = dr_amount cat, cr_amount = cr_amount cat,
           date = Date row, reference = Reference row, description = Description row \<rparr>)"

definition build_adjusting_entries ::
  "(nat \<times> txn) list \<Rightarrow> (nat \<times> txn) list \<Rightarrow> int \<Rightarrow> adjusting_entry list" where
  "build_adjusting_entries bank_credits bank_debits period_end =
     map (\<lambda>(i, row). entry_of_row row) bank_credits @
     map (\<lambda>(i, row). entry_of_row row) bank_debits"

text \<open>
  The totals of \<open>write_adjusting_entries\<close> are doubles. A sum of two numbers whose
  exact value is at or beyond \<open>2^1024 - 2^970\<close> in magnitude, where rounding to nearest
  leaves the range of the doubles, is an infinity; infinities of opposite sign add up to
  NaN, and NaN stays NaN.
\<close>

datatype pyfloat = Finite rat | PosInf | NegInf | NotANumber

definition overflow_bound :: rat where
  "overflow_bound = 2 ^ 1024 - 2 ^ 970"

definition to_float :: "rat \<Rightarrow> pyfloat" where
  "to_float q =
     (if overflow_bound \<le> q then PosInf else if q \<le> - overflow_bound then NegInf else Finite q)"

fun float_add :: "pyfloat \<Rightarrow> pyfloat \<Rightarrow> pyfloat" where
  "float_add (Finite x) (Finite y) = to_float (x + y)"
| "float_add NotANumber b = NotANumber"
| "float_add a NotANumber = NotANumber"
| "float_add PosInf NegInf = NotANumber"
| "float_add NegInf PosInf = NotANumber"
| "float_add PosInf b = PosInf"
| "float_add NegInf b = NegInf"
| "float_add a PosInf = PosInf"
| "float_add a NegInf = NegInf"

fun float_neg :: "pyfloat \<Rightarrow> pyfloat" where
  "float_neg (Finite x) = Finite (- x)"
| "float_neg PosInf = NegInf"
| "float_neg NegInf = PosInf"
| "float_neg NotANumber = NotANumber"

definition float_sub :: "pyfloat \<Rightarrow> pyfloat \<Rightarrow> pyfloat" where
  "float_sub a b = float_add a (float_neg b)"

text \<open>\<open>round(x, 2)\<close> and \<open>x == 0\<close> on a double.\<close>

fun float_round2 :: "pyfloat \<Rightarrow> pyfloat" where
  "float_round2 (Finite x) = Finite (py_round2 x)"
| "float_round2 a = a"

fun float_is_zero :: "pyfloat \<Rightarrow> bool" where
  "float_is_zero (Finite x) = (x = 0)"
| "float_is_zero a = False"

fun is_finite :: "pyfloat \<Rightarrow> bool" where
  "is_finite (Finite x) = True"
| "is_finite a = False"

text \<open>
  The totals loop of \<open>write_adjusting_entries\<close> and its validation check
  \<open>round(total_dr - total_cr, 2) == 0\<close>; the cells it writes are left out.
\<close>

definition adjusting_totals :: "adjusting_entry list \<Rightarrow> pyfloat \<times> pyfloat" where
  "adjusting_totals adjusting_entries =
     fold (\<lambda>e (total_dr, total_cr).
             (float_add total_dr (Finite (dr_amount e)), float_add total_cr (Finite (cr_amount e))))
       adjusting_entries (Finite 0, Finite 0)"

definition double_entry_check :: "adjusting_entry list \<Rightarrow> bool" where
  "double_entry_check adjusting_entries =
     (case adjusting_totals adjusting_entries of
        (total_dr, total_cr) \<Rightarrow> float_is_zero (float_round2 (float_sub total_dr total_cr)))"

subsection \<open>Reconciliation arithmetic\<close>

record reconciliation =
  book_closing :: "rat option"
  bank_closing :: "rat option"
  total_deposits_in_transit :: rat
  total_outstanding_cheques :: rat
  adjusted_bank :: "rat option"
  total_bank_credits :: rat
  total_bank_debits :: rat
  adjusted_book :: "rat option"
  difference :: "rat option"
  reconciled :: bool

text \<open>\<open>float(df['_amount'].sum()) if not df.empty else 0.0\<close>.\<close>

definition amount_total :: "(nat \<times> txn) list \<Rightarrow> rat" where
  "amount_total df = (if df \<noteq> [] then sum_list (map (\<lambda>(i, r). amount r) df) else 0)"

definition build_reconciliation ::
  "rat option \<Rightarrow> rat option \<Rightarrow> (nat \<times> txn) list \<Rightarrow> (nat \<times> txn) list \<Rightarrow>
   (nat \<times> txn) list \<Rightarrow> (nat \<times> txn) list \<Rightarrow> reconciliation" where
  "build_reconciliation book_cl bank_cl deposits_in_transit outstanding_cheques
       bank_credits bank_debits =
     (let total_dit = amount_total deposits_in_transit;
          total_oc = amount_total outstanding_cheques;
          total_bc = amount_total bank_credits;
          total_bd = amount_total bank_debits;
          adj_bank = fadd (fadd bank_cl (Some total_dit)) (Some total_oc);
          adj_book = fadd (fadd book_cl (Some total_bc)) (Some total_bd);
          diff = fround2 (fsub adj_bank adj_book)
      in \<lparr> book_closing = book_cl,
           bank_closing = bank_cl,
           total_deposits_in_transit = total_dit,
           total_outstanding_cheques = total_oc,
           adjusted_bank = adj_bank,
           total_bank_credits = total_bc,
           total_bank_debits = total_bd,
           adjusted_book = adj_book,
           difference = diff,
           reconciled = feq diff 0 \<rparr>)"

subsection \<open>Sample rows\<close>

text \<open>
  A period row with reference \<open>ref\<close>, dated \<open>day\<close> whole days after the epoch at
  midnight, description \<open>descr\<close> and signed amount \<open>a\<close>; used for the concrete
  evaluations below.
\<close>

definition sample_row :: "string \<Rightarrow> int \<Rightarrow> string \<Rightarrow> rat \<Rightarrow> txn" where
  "sample_row ref day descr a =
     \<lparr> Date = Some (day * ns_per_day), Reference = ref, Description = descr,
       Debit = (if a > 0 then a else 0), Credit = (if a < 0 then - a else 0),
       Balance = None, amount = a \<rparr>"

text \<open>A raw table row dated \<open>day\<close> days after the epoch.\<close>

definition sample_raw :: "string \<Rightarrow> int \<Rightarrow> num_cell \<Rightarrow> num_cell \<Rightarrow> num_cell \<Rightarrow> raw_row" where
  "sample_raw ref day dr cr bal =
     \<lparr> raw_Date = Dated (day * ns_per_day), raw_Reference = ref, raw_Description = [],
       raw_Debit = dr, raw_Credit = cr, raw_Balance = bal \<rparr>"

subsection \<open>The rule table of the specification\<close>

text \<open>
  The specification (section 4.4) gives the adjustment proposer as an ordered table:
  each rule is a list of keywords and the pair of debit and credit accounts proposed when
  one of the keywords occurs in the lower-cased description; the first rule with a
  keyword that occurs wins, and a default pair stands for "no match". There is one table
  for inflows and one for outflows. The accounts are those the specification names.
\<close>

datatype account = Cash | InterestIncome | AccountsReceivable | OtherIncome | BankCharges
  | InsuranceExpense | CommunicationsExpense | LoanPayable | MiscellaneousExpense

definition spec_inflow_rules :: "(string list \<times> account \<times> account) list" where
  "spec_inflow_rules =
     [([''interest''], Cash, InterestIncome),
      ([''payment'', ''collection'', ''transfer in''], Cash, AccountsReceivable)]"

definition spec_outflow_rules :: "(string list \<times> account \<times> account) list" where
  "spec_outflow_rules =
     [([''charge'', ''fee'', ''service''], BankCharges, Cash),
      ([''insurance''], InsuranceExpense, Cash),
      ([''subscription'', ''software'', ''saas''], CommunicationsExpense, Cash),
      ([''loan'', ''repayment'', ''instalment''], LoanPayable, Cash),
      ([''dishonour'', ''nsf'', ''returned'', ''bounce''], AccountsReceivable, Cash)]"

fun first_rule :: "(string list \<times> 'a) list \<Rightarrow> 'a \<Rightarrow> string \<Rightarrow> 'a" where
  "first_rule [] dflt desc = dflt"
| "first_rule ((keys, v) # rules) dflt desc =
     (if list_ex (\<lambda>k. str_in k desc) keys then v else first_rule rules dflt desc)"

definition spec_accounts :: "string \<Rightarrow> bool \<Rightarrow> account \<times> account" where
  "spec_accounts descr inflow =
     (if inflow then first_rule spec_inflow_rules (Cash, OtherIncome) (lower descr)
      else first_rule spec_outflow_rules (MiscellaneousExpense, Cash) (lower descr))"

text \<open>
  The name and the code under which the module books each account of the
  specification (the constants at the head of the module and the account names in
  \<open>categorize_bank_item\<close>).
\<close>

fun account_name :: "account \<Rightarrow> string" where
  "account_name Cash = ''Cash at Bank''"
| "account_name InterestIncome = ''Interest Income''"
| "account_name AccountsReceivable = ''Accounts Receivable''"
| "account_name OtherIncome = ''Other Income''"
| "account_name BankCharges = ''Bank Charges & Fees''"
| "account_name InsuranceExpense = ''Insurance Expense''"
| "account_name CommunicationsExpense = ''Telephone & Internet''"
| "account_name LoanPayable = ''Long-term Loans''"
| "account_name MiscellaneousExpense = ''Non-Operating Expense''"

fun account_code :: "account \<Rightarrow> string" where
  "account_code Cash = BANK_ACCOUNT_CODE"
| "account_code InterestIncome = INTEREST_INCOME_CODE"
| "account_code AccountsReceivable = AR_CODE"
| "account_code OtherIncome = OTHER_INCOME_CODE"
| "account_code BankCharges = BANK_CHARGES_CODE"
| "account_code InsuranceExpense = INSURANCE_CODE"
| "account_code CommunicationsExpense = COMMS_CODE"
| "account_code LoanPayable = LOAN_CODE"
| "account_code MiscellaneousExpense = MISC_EXPENSE_CODE"

text \<open>The debit and the credit side of a suggestion, each as (account name, code).\<close>

definition accounts_of :: "suggestion \<Rightarrow> (string \<times> string) \<times> (string \<times> string)" where
  "accounts_of c = ((dr_account c, dr_code c), (cr_account c, cr_code c))"

definition named :: "account \<times> account \<Rightarrow> (string \<times> string) \<times> (string \<times> string)" where
  "named p = ((account_name (fst p), account_code (fst p)), (account_name (snd p), account_code (snd p)))"

subsection \<open>Invariants of the matcher\<close>

text \<open>
  The state of the two passes is one-to-one when the two sets of matched labels are
  exactly the labels that occur in the pairs, no label occurs in two pairs, and every
  label is a row of its table.
\<close>

definition one_to_one :: "nat \<Rightarrow> nat \<Rightarrow> match_state \<Rightarrow> bool" where
  "one_to_one n m st \<longleftrightarrow>
     book_matched st = book_idx ` set (matched_pairs st) \<and>
     bank_matched st = bank_idx ` set (matched_pairs st) \<and>
     distinct (map book_idx (matched_pairs st)) \<and>
     distinct (map bank_idx (matched_pairs st)) \<and>
     book_matched st \<subseteq> {..<n} \<and> bank_matched st \<subseteq> {..<m}"

text \<open>A bank row the inner loop would accept for the book row \<open>b\<close>.\<close>

definition candidate :: "(txn \<Rightarrow> txn \<Rightarrow> bool) \<Rightarrow> txn list \<Rightarrow> nat set \<Rightarrow> txn \<Rightarrow> nat \<Rightarrow> bool" where
  "candidate cond bank_df matched b si \<longleftrightarrow>
     si < length bank_df \<and> si \<notin> matched \<and> cond b (bank_df ! si)"

subsection \<open>Sample tables\<close>

text \<open>
  A cash book and a bank statement of three rows each: the first rows agree on
  reference and amount, the second on the amount with dates two days apart, the third
  rows have no partner.
\<close>

definition sample_book :: "txn list" where
  "sample_book =
     [sample_row ''CRJ-001'' 1 ''Sales'' 1000,
      sample_row ''CPJ-002'' 2 ''Rent'' (- 250),
      sample_row ''CRJ-013'' 29 ''Capital'' 500000]"

definition sample_bank :: "txn list" where
  "sample_bank =
     [sample_row ''crj-001'' 1 ''Deposit'' 1000,
      sample_row ''CHQ 7781'' 4 ''Cheque'' (- 250),
      sample_row ''INT-001'' 30 ''Interest earned'' 15000]"


text \<open>A cash book with two rows of one reference and amount, and the bank row for them.\<close>

definition dup_book :: "txn list" where
  "dup_book =
     [sample_row ''CRJ-001'' 1 ''Sales, first slip'' 1000,
      sample_row ''CRJ-001'' 2 ''Sales, second slip'' 1000]"

definition dup_bank :: "txn list" where
  "dup_bank = [sample_row ''CRJ-001'' 2 ''Deposit'' 1000]"

section \<open>Properties\<close>

subsection \<open>Auxiliary facts\<close>

lemma py_round2_zero: "py_round2 0 = 0"
  by (simp add: py_round2_def)

lemma amount_total_sum: "amount_total df = sum_list (map (\<lambda>(i, r). amount r) df)"
  by (simp add: amount_total_def)

lemma length_sign_partition:
  "length (filter (\<lambda>(i, r). amount r > 0) xs) + length (filter (\<lambda>(i, r). amount r < 0) xs)
     + length (filter (\<lambda>(i, r). amount r = 0) xs) = length (xs :: (nat \<times> txn) list)"
  by (induction xs) auto

lemma categorize_amounts:
  "dr_amount (categorize_bank_item d a) = \<bar>a\<bar> \<and> cr_amount (categorize_bank_item d a) = \<bar>a\<bar>"
  by (simp add: categorize_bank_item_def Let_def mk_suggestion_def)

lemma entry_amounts:
  "dr_amount (entry_of_row r) = \<bar>amount r\<bar> \<and> cr_amount (entry_of_row r) = \<bar>amount r\<bar>"
  by (simp add: entry_of_row_def Let_def categorize_amounts)

lemma overflow_bound_pos: "0 < overflow_bound"
proof -
  have "(2 :: rat) ^ 970 < 2 ^ 1024" by (rule power_strict_increasing) simp_all
  then show ?thesis by (simp add: overflow_bound_def)
qed

lemma float_sub_self: "float_sub a a = (if is_finite a then Finite 0 else NotANumber)"
  using overflow_bound_pos by (cases a) (simp_all add: float_sub_def to_float_def)

lemma totals_fold_equal:
  "\<forall>e \<in> set es. dr_amount e = cr_amount e \<Longrightarrow>
     fst (fold (\<lambda>e (total_dr, total_cr).
                 (float_add total_dr (Finite (dr_amount e)), float_add total_cr (Finite (cr_amount e))))
            es (a, a))
   = snd (fold (\<lambda>e (total_dr, total_cr).
                 (float_add total_dr (Finite (dr_amount e)), float_add total_cr (Finite (cr_amount e))))
            es (a, a))"
  by (induction es arbitrary: a) simp_all

lemma adjusting_totals_equal:
  "\<forall>e \<in> set es. dr_amount e = cr_amount e \<Longrightarrow>
     fst (adjusting_totals es) = snd (adjusting_totals es)"
  unfolding adjusting_totals_def by (rule totals_fold_equal)

lemma check_iff_finite:
  assumes "fst (adjusting_totals es) = snd (adjusting_totals es)"
  shows "double_entry_check es \<longleftrightarrow> is_finite (fst (adjusting_totals es))"
proof -
  obtain t where t: "adjusting_totals es = (t, t)"
    using assms by (cases "adjusting_totals es") simp
  show ?thesis
    by (simp add: double_entry_check_def t float_sub_self py_round2_zero)
qed

lemma build_entries_amounts:
  "map dr_amount (build_adjusting_entries bc bd pe) = map (\<lambda>(i, r). \<bar>amount r\<bar>) (bc @ bd)"
  "map cr_amount (build_adjusting_entries bc bd pe) = map (\<lambda>(i, r). \<bar>amount r\<bar>) (bc @ bd)"
  by (auto simp: build_adjusting_entries_def entry_amounts split_def)

subsection \<open>Reconciliation arithmetic\<close>

text \<open>
  Claim C1. \<open>build_reconciliation\<close> adds the four bucket totals: the adjusted bank
  balance is the bank closing balance plus the deposits in transit plus the outstanding
  cheques, the adjusted book balance is the book closing balance plus the bank credits
  plus the bank debits (the cheque and debit amounts are negative already, so nothing is
  subtracted); the difference is their difference rounded to two decimals, and
  \<open>reconciled\<close> says that the difference is zero. With four empty buckets the
  adjusted balances are the closing balances themselves.
\<close>

theorem build_reconciliation_balances:
  "adjusted_bank (build_reconciliation (Some bk) (Some bn) dit oc bc bd)
     = Some (bn + sum_list (map (\<lambda>(i, r). amount r) dit) + sum_list (map (\<lambda>(i, r). amount r) oc))
   \<and> adjusted_book (build_reconciliation (Some bk) (Some bn) dit oc bc bd)
     = Some (bk + sum_list (map (\<lambda>(i, r). amount r) bc) + sum_list (map (\<lambda>(i, r). amount r) bd))
   \<and> difference (build_reconciliation (Some bk) (Some bn) dit oc bc bd)
     = Some (py_round2
         ((bn + sum_list (map (\<lambda>(i, r). amount r) dit) + sum_list (map (\<lambda>(i, r). amount r) oc))
          - (bk + sum_list (map (\<lambda>(i, r). amount r) bc) + sum_list (map (\<lambda>(i, r). amount r) bd))))
   \<and> difference (build_reconciliation book_cl bank_cl dit oc bc bd)
     = fround2 (fsub (adjusted_bank (build_reconciliation book_cl bank_cl dit oc bc bd))
                     (adjusted_book (build_reconciliation book_cl bank_cl dit oc bc bd)))
   \<and> reconciled (build_reconciliation book_cl bank_cl dit oc bc bd)
     = (difference (build_reconciliation book_cl bank_cl dit oc bc bd) = Some 0)
   \<and> adjusted_bank (build_reconciliation book_cl bank_cl [] [] [] []) = bank_cl
   \<and> adjusted_book (build_reconciliation book_cl bank_cl [] [] [] []) = book_cl"
  by (auto simp add: build_reconciliation_def Let_def amount_total_sum fadd_def fsub_def
        fround2_def feq_def split: option.splits)

text \<open>The scenario of the January 2026 books: both sides adjust to 1,435,500.\<close>

theorem build_reconciliation_balances_witness:
  "adjusted_bank (build_reconciliation (Some 1438500) (Some 1495500)
       [(0, sample_row ''CRJ-013'' 29 [] 500000)]
       [(1, sample_row ''CPJ-015'' 29 [] (- 200000)), (2, sample_row ''PAY-004'' 30 [] (- 360000))]
       [(0, sample_row ''INT-001'' 30 [] 15000)]
       [(1, sample_row ''DIRECT-01'' 27 [] (- 18000))]) = Some 1435500
   \<and> adjusted_book (build_reconciliation (Some 1438500) (Some 1495500)
       [(0, sample_row ''CRJ-013'' 29 [] 500000)]
       [(1, sample_row ''CPJ-015'' 29 [] (- 200000)), (2, sample_row ''PAY-004'' 30 [] (- 360000))]
       [(0, sample_row ''INT-001'' 30 [] 15000)]
       [(1, sample_row ''DIRECT-01'' 27 [] (- 18000))]) = Some 1435500"
  using build_reconciliation_balances [of 1438500 1495500
       "[(0, sample_row ''CRJ-013'' 29 [] 500000)]"
       "[(1, sample_row ''CPJ-015'' 29 [] (- 200000)), (2, sample_row ''PAY-004'' 30 [] (- 360000))]"
       "[(0, sample_row ''INT-001'' 30 [] 15000)]"
       "[(1, sample_row ''DIRECT-01'' 27 [] (- 18000))]"]
  by (simp add: sample_row_def)

subsection \<open>Classification by sign\<close>

text \<open>
  Claim C5. \<open>classify_book_only\<close> and \<open>classify_bank_only\<close> split their input by
  the sign of the amount: a row is in the first bucket (deposits in transit, bank
  credits) exactly when its amount is positive and in the second (outstanding cheques,
  bank debits) exactly when it is negative; the buckets hold rows of the input only and
  share none, a row of amount zero is in neither, and the two buckets together with the
  dropped zero rows count every input row once.
\<close>

theorem classify_partition_by_sign:
  "(\<forall>p \<in> set book_only.
      (p \<in> set (fst (classify_book_only book_only)) \<longleftrightarrow> amount (snd p) > 0) \<and>
      (p \<in> set (snd (classify_book_only book_only)) \<longleftrightarrow> amount (snd p) < 0)) \<and>
   (\<forall>p \<in> set bank_only.
      (p \<in> set (fst (classify_bank_only bank_only)) \<longleftrightarrow> amount (snd p) > 0) \<and>
      (p \<in> set (snd (classify_bank_only bank_only)) \<longleftrightarrow> amount (snd p) < 0)) \<and>
   set (fst (classify_book_only book_only)) \<union> set (snd (classify_book_only book_only)) \<subseteq> set book_only \<and>
   set (fst (classify_bank_only bank_only)) \<union> set (snd (classify_bank_only bank_only)) \<subseteq> set bank_only \<and>
   set (fst (classify_book_only book_only)) \<inter> set (snd (classify_book_only book_only)) = {} \<and>
   set (fst (classify_bank_only bank_only)) \<inter> set (snd (classify_bank_only bank_only)) = {} \<and>
   (\<forall>p. amount (snd p) = 0 \<longrightarrow>
      p \<notin> set (fst (classify_book_only book_only)) \<and> p \<notin> set (snd (classify_book_only book_only)) \<and>
      p \<notin> set (fst (classify_bank_only bank_only)) \<and> p \<notin> set (snd (classify_bank_only bank_only))) \<and>
   length (fst (classify_book_only book_only)) + length (snd (classify_book_only book_only))
     + length (filter (\<lambda>(i, r). amount r = 0) book_only) = length book_only \<and>
   length (fst (classify_bank_only bank_only)) + length (snd (classify_bank_only bank_only))
     + length (filter (\<lambda>(i, r). amount r = 0) bank_only) = length bank_only"
  unfolding classify_book_only_def classify_bank_only_def Let_def fst_conv snd_conv
  using length_sign_partition [of book_only] length_sign_partition [of bank_only]
  by (intro conjI) (auto simp del: length_filter_conv_card)

theorem classify_partition_by_sign_witness:
  "(0, sample_row ''CRJ-013'' 29 [] 500000)
      \<in> set (fst (classify_book_only
           [(0, sample_row ''CRJ-013'' 29 [] 500000), (1, sample_row ''CPJ-015'' 29 [] (- 200000)),
            (2, sample_row ''VOID-01'' 30 [] 0)])) \<and>
   (1, sample_row ''CPJ-015'' 29 [] (- 200000))
      \<in> set (snd (classify_book_only
           [(0, sample_row ''CRJ-013'' 29 [] 500000), (1, sample_row ''CPJ-015'' 29 [] (- 200000)),
            (2, sample_row ''VOID-01'' 30 [] 0)])) \<and>
   (2, sample_row ''VOID-01'' 30 [] 0)
      \<notin> set (fst (classify_book_only
           [(0, sample_row ''CRJ-013'' 29 [] 500000), (1, sample_row ''CPJ-015'' 29 [] (- 200000)),
            (2, sample_row ''VOID-01'' 30 [] 0)])) \<and>
   (0, sample_row ''INT-001'' 30 [] 15000)
      \<in> set (fst (classify_bank_only
           [(0, sample_row ''INT-001'' 30 [] 15000), (1, sample_row ''DIRECT-01'' 27 [] (- 18000))])) \<and>
   (1, sample_row ''DIRECT-01'' 27 [] (- 18000))
      \<in> set (snd (classify_bank_only
           [(0, sample_row ''INT-001'' 30 [] 15000), (1, sample_row ''DIRECT-01'' 27 [] (- 18000))]))"
  using classify_partition_by_sign
    [of "[(0, sample_row ''CRJ-013'' 29 [] 500000), (1, sample_row ''CPJ-015'' 29 [] (- 200000)),
          (2, sample_row ''VOID-01'' 30 [] 0)]"
        "[(0, sample_row ''INT-001'' 30 [] 15000), (1, sample_row ''DIRECT-01'' 27 [] (- 18000))]"]
  by (simp add: sample_row_def)

subsection \<open>Adjusting entries balance\<close>

text \<open>
  Two bank credits of \<open>10^308\<close> each: every entry is balanced, but the running totals
  overflow to infinity, their difference is NaN, and the check
  \<open>round(total_dr - total_cr, 2) == 0\<close> is false.
\<close>

theorem adjusting_check_overflow_counterexample:
  "\<not> double_entry_check (build_adjusting_entries
        [(0, sample_row ''TRF-001'' 1 ''Transfer in'' (10 ^ 308)),
         (1, sample_row ''TRF-002'' 2 ''Transfer in'' (10 ^ 308))]
        [] (30 * ns_per_day))"
  by (simp add: double_entry_check_def adjusting_totals_def build_adjusting_entries_def
        entry_amounts sample_row_def to_float_def overflow_bound_def float_sub_def)

text \<open>
  Claim C8, as amended. Every adjusting entry built by \<open>build_adjusting_entries\<close>
  carries the same debit and credit amount, the absolute value of the amount of the
  bank-only row it comes from, so the two totals of \<open>write_adjusting_entries\<close> are the
  same value. The check \<open>round(total_dr - total_cr, 2) == 0\<close> is true exactly when
  that total is a finite number; when the total has overflowed to infinity the check is
  false and the unbalanced branch is taken.
\<close>

theorem adjusting_check_iff_finite_total:
  "(\<forall>e \<in> set (build_adjusting_entries bank_credits bank_debits period_end). dr_amount e = cr_amount e) \<and>
   map dr_amount (build_adjusting_entries bank_credits bank_debits period_end)
     = map (\<lambda>(i, r). \<bar>amount r\<bar>) (bank_credits @ bank_debits) \<and>
   map cr_amount (build_adjusting_entries bank_credits bank_debits period_end)
     = map (\<lambda>(i, r). \<bar>amount r\<bar>) (bank_credits @ bank_debits) \<and>
   fst (adjusting_totals (build_adjusting_entries bank_credits bank_debits period_end))
     = snd (adjusting_totals (build_adjusting_entries bank_credits bank_debits period_end)) \<and>
   (double_entry_check (build_adjusting_entries bank_credits bank_debits period_end) \<longleftrightarrow>
      is_finite (fst (adjusting_totals (build_adjusting_entries bank_credits bank_debits period_end))))"
proof -
  let ?es = "build_adjusting_entries bank_credits bank_debits period_end"
  have each: "\<forall>e \<in> set ?es. dr_amount e = cr_amount e"
    by (auto simp: build_adjusting_entries_def entry_amounts)
  have tot: "fst (adjusting_totals ?es) = snd (adjusting_totals ?es)"
    using each by (rule adjusting_totals_equal)
  have chk: "double_entry_check ?es \<longleftrightarrow> is_finite (fst (adjusting_totals ?es))"
    using tot by (rule check_iff_finite)
  show ?thesis using each tot chk build_entries_amounts by blast
qed

theorem adjusting_check_iff_finite_total_witness:
  "map dr_amount (build_adjusting_entries
       [(0, sample_row ''INT-001'' 30 ''Interest earned'' 15000)]
       [(1, sample_row ''DIRECT-01'' 27 ''Software subscription (auto-debit)'' (- 18000))]
       (30 * ns_per_day))
     = [15000, 18000] \<and>
   fst (adjusting_totals (build_adjusting_entries
       [(0, sample_row ''INT-001'' 30 ''Interest earned'' 15000)]
       [(1, sample_row ''DIRECT-01'' 27 ''Software subscription (auto-debit)'' (- 18000))]
       (30 * ns_per_day))) = Finite 33000 \<and>
   double_entry_check (build_adjusting_entries
       [(0, sample_row ''INT-001'' 30 ''Interest earned'' 15000)]
       [(1, sample_row ''DIRECT-01'' 27 ''Software subscription (auto-debit)'' (- 18000))]
       (30 * ns_per_day))"
proof -
  let ?es = "build_adjusting_entries
       [(0, sample_row ''INT-001'' 30 ''Interest earned'' 15000)]
       [(1, sample_row ''DIRECT-01'' 27 ''Software subscription (auto-debit)'' (- 18000))]
       (30 * ns_per_day)"
  have big: "(33000 :: rat) < overflow_bound"
  proof -
    have "(33000 :: rat) < 2 ^ 16" by simp
    also have "(2 :: rat) ^ 16 \<le> 2 ^ 970" by (rule power_increasing) simp_all
    also have "(2 :: rat) ^ 970 = 2 ^ 971 - 2 ^ 970" by simp
    also have "\<dots> \<le> 2 ^ 1024 - 2 ^ 970"
    proof -
      have "(2 :: rat) ^ 971 \<le> 2 ^ 1024" by (rule power_increasing) simp_all
      then show ?thesis by simp
    qed
    finally show ?thesis by (simp add: overflow_bound_def)
  qed
  have t: "fst (adjusting_totals ?es) = Finite 33000"
    using big
    by (simp add: adjusting_totals_def build_adjusting_entries_def entry_amounts sample_row_def
          to_float_def)
  show ?thesis
    using t adjusting_check_iff_finite_total
      [of "[(0, sample_row ''INT-001'' 30 ''Interest earned'' 15000)]"
          "[(1, sample_row ''DIRECT-01'' 27 ''Software subscription (auto-debit)'' (- 18000))]"
          "30 * ns_per_day"]
    by (simp add: sample_row_def)
qed

subsection \<open>Closing balance without rows\<close>

text \<open>
  Claim C10. When no row of the table is dated at or before the period end, both
  loaders still return a result, and the closing balance in it is the opening balance
  they computed; that opening balance is 0.0 when no row is dated strictly before the
  period start either. For the bank statement this holds whichever of the optional
  columns the table has.
\<close>

theorem closing_falls_back_to_opening:
  "(\<forall>r \<in> set data. \<not> date_le (to_datetime (raw_Date r)) period_end) \<longrightarrow>
     (\<exists>pd ob. load_cash_ledger (Inr data) period_start period_end = Inr (pd, ob, ob) \<and>
        ((\<forall>r \<in> set data. \<not> date_lt (to_datetime (raw_Date r)) period_start) \<longrightarrow> ob = Some 0)) \<and>
     (\<exists>pd ob. load_bank_statement
          (Inr \<lparr> has_Debit = with_debit, has_Credit = with_credit, sheet_rows = data \<rparr>)
          period_start period_end = Inr (pd, ob, ob) \<and>
        ((\<forall>r \<in> set data. \<not> date_lt (to_datetime (raw_Date r)) period_start) \<longrightarrow> ob = Some 0))"
proof
  assume none: "\<forall>r \<in> set data. \<not> date_le (to_datetime (raw_Date r)) period_end"
  have a: "filter (\<lambda>r. date_le (Date r) period_end) (map coerce_row data) = []"
    using none by (auto simp: filter_empty_conv coerce_row_def)
  have b: "(\<forall>r \<in> set data. \<not> date_lt (to_datetime (raw_Date r)) period_start) \<Longrightarrow>
      filter (\<lambda>r. date_lt (Date r) period_start) (map coerce_row data) = []"
    by (auto simp: filter_empty_conv coerce_row_def)
  have a': "filter (\<lambda>r. date_le (s_Date r) period_end)
              (map (coerce_statement_row with_debit with_credit) data) = []"
    using none by (auto simp: filter_empty_conv coerce_statement_row_def)
  have b': "(\<forall>r \<in> set data. \<not> date_lt (to_datetime (raw_Date r)) period_start) \<Longrightarrow>
      filter (\<lambda>r. date_lt (s_Date r) period_start)
        (map (coerce_statement_row with_debit with_credit) data) = []"
    by (auto simp: filter_empty_conv coerce_statement_row_def)
  have cash: "\<exists>pd ob. load_cash_ledger (Inr data) period_start period_end = Inr (pd, ob, ob) \<and>
        ((\<forall>r \<in> set data. \<not> date_lt (to_datetime (raw_Date r)) period_start) \<longrightarrow> ob = Some 0)"
    using a b by (simp add: load_cash_ledger_def Let_def)
  have bank: "\<exists>pd ob. load_bank_statement
          (Inr \<lparr> has_Debit = with_debit, has_Credit = with_credit, sheet_rows = data \<rparr>)
          period_start period_end = Inr (pd, ob, ob) \<and>
        ((\<forall>r \<in> set data. \<not> date_lt (to_datetime (raw_Date r)) period_start) \<longrightarrow> ob = Some 0)"
    using a' b' by (simp add: load_bank_statement_def Let_def)
  show "(\<exists>pd ob. load_cash_ledger (Inr data) period_start period_end = Inr (pd, ob, ob) \<and>
        ((\<forall>r \<in> set data. \<not> date_lt (to_datetime (raw_Date r)) period_start) \<longrightarrow> ob = Some 0)) \<and>
     (\<exists>pd ob. load_bank_statement
          (Inr \<lparr> has_Debit = with_debit, has_Credit = with_credit, sheet_rows = data \<rparr>)
          period_start period_end = Inr (pd, ob, ob) \<and>
        ((\<forall>r \<in> set data. \<not> date_lt (to_datetime (raw_Date r)) period_start) \<longrightarrow> ob = Some 0))"
    using cash bank by (rule conjI)
qed

text \<open>A table whose only row is dated after the period end, and after its start.\<close>

theorem closing_falls_back_to_opening_witness:
  "\<not> date_le (to_datetime (raw_Date (sample_raw ''CRJ-001'' 40 (Numeric 5) NonNumeric (Numeric 100))))
        (30 * ns_per_day) \<and>
   (\<exists>pd ob. load_cash_ledger
        (Inr [sample_raw ''CRJ-001'' 40 (Numeric 5) NonNumeric (Numeric 100)] :: string + raw_row list)
        0 (30 * ns_per_day) = Inr (pd, ob, ob) \<and> ob = Some 0) \<and>
   (\<exists>pd ob. load_bank_statement
        (Inr \<lparr> has_Debit = True, has_Credit = True,
               sheet_rows = [sample_raw ''CRJ-001'' 40 (Numeric 5) NonNumeric (Numeric 100)] \<rparr>
           :: string + bank_sheet)
        0 (30 * ns_per_day) = Inr (pd, ob, ob) \<and> ob = Some 0)"
proof -
  have h: "\<forall>r \<in> set [sample_raw ''CRJ-001'' 40 (Numeric 5) NonNumeric (Numeric 100)].
       \<not> date_le (to_datetime (raw_Date r)) (30 * ns_per_day)"
    by (simp add: sample_raw_def date_le_def ns_per_day_def)
  have g: "\<forall>r \<in> set [sample_raw ''CRJ-001'' 40 (Numeric 5) NonNumeric (Numeric 100)].
       \<not> date_lt (to_datetime (raw_Date r)) 0"
    by (simp add: sample_raw_def date_lt_def ns_per_day_def)
  have "(\<exists>pd ob. load_cash_ledger
        (Inr [sample_raw ''CRJ-001'' 40 (Numeric 5) NonNumeric (Numeric 100)] :: string + raw_row list)
        0 (30 * ns_per_day) = Inr (pd, ob, ob) \<and> ob = Some 0) \<and>
   (\<exists>pd ob. load_bank_statement
        (Inr \<lparr> has_Debit = True, has_Credit = True,
               sheet_rows = [sample_raw ''CRJ-001'' 40 (Numeric 5) NonNumeric (Numeric 100)] \<rparr>
           :: string + bank_sheet)
        0 (30 * ns_per_day) = Inr (pd, ob, ob) \<and> ob = Some 0)"
    using h g closing_falls_back_to_opening
      [of "[sample_raw ''CRJ-001'' 40 (Numeric 5) NonNumeric (Numeric 100)]" "30 * ns_per_day" 0
          True True]
    by blast
  then show ?thesis using h by simp
qed

subsection \<open>Keyword categoriser\<close>

lemma inflow_refines:
  "0 < amt \<Longrightarrow> accounts_of (categorize_bank_item descr amt) = named (spec_accounts descr True)"
  by (simp add: categorize_bank_item_def Let_def mk_suggestion_def accounts_of_def named_def
        spec_accounts_def spec_inflow_rules_def)

lemma outflow_refines:
  "\<not> 0 < amt \<Longrightarrow> accounts_of (categorize_bank_item descr amt) = named (spec_accounts descr False)"
  by (simp add: categorize_bank_item_def Let_def mk_suggestion_def accounts_of_def named_def
        spec_accounts_def spec_outflow_rules_def)

lemma software_desc:
  "lower ''Software subscription (auto-debit)'' = ''software subscription (auto-debit)''"
  by code_simp

lemma sw1: "\<not> str_in ''charge'' ''software subscription (auto-debit)''" by code_simp
lemma sw2: "\<not> str_in ''fee'' ''software subscription (auto-debit)''" by code_simp
lemma sw3: "\<not> str_in ''service'' ''software subscription (auto-debit)''" by code_simp
lemma sw4: "\<not> str_in ''insurance'' ''software subscription (auto-debit)''" by code_simp
lemma sw5: "str_in ''subscription'' ''software subscription (auto-debit)''" by code_simp

lemma software_scenario:
  "amt < 0 \<Longrightarrow> categorize_bank_item ''Software subscription (auto-debit)'' amt =
     \<lparr> category = ''Software / Subscription'', dr_account = ''Telephone & Internet'',
       dr_code = ''5220'', cr_account = ''Cash at Bank'', cr_code = ''1020'',
       dr_amount = - amt, cr_amount = - amt \<rparr>"
  unfolding categorize_bank_item_def Let_def software_desc
  by (simp only: sw1 sw2 sw3 sw4 sw5 mk_suggestion_def COMMS_CODE_def BANK_ACCOUNT_CODE_def) simp

lemma lower_upper_char: "lower_char (upper_char c) = lower_char c"
  unfolding lower_char_def upper_char_def ascii_lower_def ascii_upper_def
  by (simp split: if_splits)




lemma lower_upper: "lower (upper s) = lower s"
  by (simp add: lower_def upper_def lower_upper_char)

lemma categorize_upper:
  "categorize_bank_item (upper descr) amt = categorize_bank_item descr amt"
  by (simp add: categorize_bank_item_def lower_upper)

text \<open>
  Claim C7. \<open>categorize_bank_item\<close> is the ordered keyword search of the
  specification: for an inflow (amount above zero) and for an outflow (amount below
  zero) the accounts it proposes are those of the first rule of the matching table of
  section 4.4 one of whose keywords occurs in the lower-cased description, and the
  default pair when none does. The search ignores case: the description in upper case
  gets the same suggestion. An outflow described as "Software subscription (auto-debit)"
  is categorised "Software / Subscription", debit Telephone & Internet (5220), credit
  Cash at Bank (1020).
\<close>

theorem categorize_follows_rule_order:
  "(0 < amt \<longrightarrow>
      accounts_of (categorize_bank_item descr amt) = named (spec_accounts descr True)) \<and>
   (amt < 0 \<longrightarrow>
      accounts_of (categorize_bank_item descr amt) = named (spec_accounts descr False)) \<and>
   categorize_bank_item (upper descr) amt = categorize_bank_item descr amt \<and>
   (amt < 0 \<longrightarrow>
      categorize_bank_item ''Software subscription (auto-debit)'' amt =
        \<lparr> category = ''Software / Subscription'', dr_account = ''Telephone & Internet'',
          dr_code = ''5220'', cr_account = ''Cash at Bank'', cr_code = ''1020'',
          dr_amount = - amt, cr_amount = - amt \<rparr>)"
  using inflow_refines [of amt descr] outflow_refines [of amt descr]
    categorize_upper [of descr amt] software_scenario [of amt]
  by auto

text \<open>
  Two descriptions with keywords of several rules: "charge" (rule 1 of the outflow
  table) wins over "loan", and "interest" (rule 1 of the inflow table) over "payment".
\<close>

theorem categorize_follows_rule_order_witness:
  "categorize_bank_item ''Software subscription (auto-debit)'' (- 18000) =
        \<lparr> category = ''Software / Subscription'', dr_account = ''Telephone & Internet'',
          dr_code = ''5220'', cr_account = ''Cash at Bank'', cr_code = ''1020'',
          dr_amount = 18000, cr_amount = 18000 \<rparr> \<and>
   accounts_of (categorize_bank_item ''Loan interest charge'' (- 18000))
     = ((''Bank Charges & Fees'', ''5920''), (''Cash at Bank'', ''1020'')) \<and>
   accounts_of (categorize_bank_item ''Interest on late payment'' 15000)
     = ((''Cash at Bank'', ''1020''), (''Interest Income'', ''4110''))"
proof -
  have a: "named (spec_accounts ''Loan interest charge'' False)
      = ((''Bank Charges & Fees'', ''5920''), (''Cash at Bank'', ''1020''))"
    by code_simp
  have b: "named (spec_accounts ''Interest on late payment'' True)
      = ((''Cash at Bank'', ''1020''), (''Interest Income'', ''4110''))"
    by code_simp
  show ?thesis
    using categorize_follows_rule_order [of "- 18000" "''Loan interest charge''"]
      categorize_follows_rule_order [of 15000 "''Interest on late payment''"]
    by (simp add: a b)
qed

subsection \<open>Coercion of numeric cells\<close>

text \<open>
  Claim C9 says that a blank or non-numeric cell of \<open>Debit\<close>, \<open>Credit\<close> or
  \<open>Balance\<close> reaches no computation but as 0. The loaders do this for the cells of a
  \<open>Debit\<close> or \<open>Credit\<close> column the table has, and miss it in two places, evaluated
  here. A cash ledger whose only period row has a blank \<open>Credit\<close> and a blank
  \<open>Balance\<close>: the credit is 0, but the balance of the row and the closing balance
  taken from it are NaN (\<open>Balance\<close> is coerced without \<open>fillna\<close>). A bank statement
  without a \<open>Debit\<close> column: \<open>fillna(0)\<close> runs on the empty default series before the
  assignment aligns it with the frame, so \<open>Debit\<close> and the signed amount of every row
  are NaN.
\<close>

theorem blank_balance_and_absent_column_stay_nan:
  "load_cash_ledger
     (Inr [sample_raw ''CRJ-001'' 10 (Numeric 5) NonNumeric NonNumeric] :: string + raw_row list)
     0 (30 * ns_per_day)
   = Inr ([\<lparr> Date = Some (10 * ns_per_day), Reference = ''CRJ-001'', Description = [],
             Debit = 5, Credit = 0, Balance = None, amount = 5 \<rparr>], Some 0, None) \<and>
   load_bank_statement
     (Inr \<lparr> has_Debit = False, has_Credit = True,
            sheet_rows = [sample_raw ''DEP-001'' 10 NonNumeric (Numeric 250) (Numeric 1250)] \<rparr>
        :: string + bank_sheet)
     0 (30 * ns_per_day)
   = Inr ([\<lparr> s_Date = Some (10 * ns_per_day), s_Reference = ''DEP-001'', s_Description = [],
             s_Debit = None, s_Credit = Some 250, s_Balance = Some 1250, s_amount = None \<rparr>],
          Some 0, Some 1250)"
  by code_simp

subsection \<open>The matcher is one-to-one\<close>

lemma fold_prefix_invariant:
  assumes "I [] s0"
    and "\<And>ds x rest s. xs = ds @ x # rest \<Longrightarrow> I ds s \<Longrightarrow> I (ds @ [x]) (f x s)"
  shows "I xs (fold f xs s0)"
proof -
  have "xs = ds @ ys \<Longrightarrow> I ds s \<Longrightarrow> I (ds @ ys) (fold f ys s)" for ds ys s
  proof (induction ys arbitrary: ds s)
    case Nil
    then show ?case by simp
  next
    case (Cons y ys)
    have "I (ds @ [y]) (f y s)" using Cons.prems assms(2) by blast
    moreover have "xs = (ds @ [y]) @ ys" using Cons.prems by simp
    ultimately have "I ((ds @ [y]) @ ys) (fold f ys (f y s))" by (rule Cons.IH [rotated])
    then show ?case by simp
  qed
  from this [of "[]" xs s0] assms(1) show ?thesis by simp
qed

lemma upt_split: "[0..<n] = ds @ x # rest \<Longrightarrow> x < n \<and> x \<notin> set ds"
proof -
  assume e: "[0..<n] = ds @ x # rest"
  have "distinct (ds @ x # rest)" using e distinct_upt [of 0 n] by simp
  moreover have "x \<in> set [0..<n]" using e by simp
  ultimately show ?thesis by auto
qed

lemma scan_bank_Some:
  "scan_bank cond bank_df matched b = Some si \<Longrightarrow> candidate cond bank_df matched b si"
  by (auto simp: scan_bank_def candidate_def find_Some_iff)

lemma scan_bank_None:
  "scan_bank cond bank_df matched b = None \<longleftrightarrow> (\<forall>si. \<not> candidate cond bank_df matched b si)"
  by (auto simp: scan_bank_def candidate_def find_None_iff)

lemma add_match_one_to_one:
  "one_to_one n m st \<Longrightarrow> bi < n \<Longrightarrow> si < m \<Longrightarrow> bi \<notin> book_matched st \<Longrightarrow>
     si \<notin> bank_matched st \<Longrightarrow> one_to_one n m (add_match st bi si k)"
  by (auto simp: one_to_one_def add_match_def)

lemma pass1_step_one_to_one:
  assumes "one_to_one n (length bank_df) st" and "bi < n" and "bi \<notin> book_matched st"
  shows "one_to_one n (length bank_df) (pass1_step book_df bank_df bi st)"
proof (cases "scan_bank exact_cond bank_df (bank_matched st) (book_df ! bi)")
  case None
  then show ?thesis using assms by (simp add: pass1_step_def)
next
  case (Some si)
  from scan_bank_Some [OF Some] have "si < length bank_df" "si \<notin> bank_matched st"
    by (auto simp: candidate_def)
  then show ?thesis using assms Some by (simp add: pass1_step_def add_match_one_to_one)
qed

lemma pass2_step_one_to_one:
  assumes "one_to_one n (length bank_df) st" and "bi < n"
  shows "one_to_one n (length bank_df) (pass2_step book_df bank_df bi st)"
proof (cases "bi \<in> book_matched st")
  case True
  then show ?thesis using assms by (simp add: pass2_step_def)
next
  case False
  show ?thesis
  proof (cases "scan_bank probable_cond bank_df (bank_matched st) (book_df ! bi)")
    case None
    then show ?thesis using assms False by (simp add: pass2_step_def)
  next
    case (Some si)
    from scan_bank_Some [OF Some] have "si < length bank_df" "si \<notin> bank_matched st"
      by (auto simp: candidate_def)
    then show ?thesis using assms Some False by (simp add: pass2_step_def add_match_one_to_one)
  qed
qed

lemma pass1_step_book_matched:
  "book_matched (pass1_step book_df bank_df bi st) \<subseteq> insert bi (book_matched st)"
  by (auto simp: pass1_step_def add_match_def split: option.splits)

lemma pass1_one_to_one:
  "one_to_one (length book_df) (length bank_df)
     (fold (pass1_step book_df bank_df) [0..<length book_df] init_state)"
proof -
  let ?n = "length book_df" and ?m = "length bank_df"
  let ?I = "\<lambda>ds st. one_to_one ?n ?m st \<and> book_matched st \<subseteq> set ds"
  have "?I [0..<?n] (fold (pass1_step book_df bank_df) [0..<?n] init_state)"
  proof (rule fold_prefix_invariant [where I = ?I])
    show "?I [] init_state" by (simp add: one_to_one_def init_state_def)
  next
    fix ds x rest s
    assume sp: "[0..<?n] = ds @ x # rest" and inv: "?I ds s"
    from upt_split [OF sp] have x: "x < ?n" "x \<notin> set ds" by auto
    with inv have "x \<notin> book_matched s" by auto
    with inv x have "one_to_one ?n ?m (pass1_step book_df bank_df x s)"
      by (simp add: pass1_step_one_to_one)
    moreover have "book_matched (pass1_step book_df bank_df x s) \<subseteq> set (ds @ [x])"
      using pass1_step_book_matched [of book_df bank_df x s] inv by auto
    ultimately show "?I (ds @ [x]) (pass1_step book_df bank_df x s)" by simp
  qed
  then show ?thesis by simp
qed

lemma run_passes_one_to_one:
  "one_to_one (length book_df) (length bank_df) (run_passes book_df bank_df)"
proof -
  let ?n = "length book_df" and ?m = "length bank_df"
  let ?I = "\<lambda>ds st. one_to_one ?n ?m st"
  show ?thesis unfolding run_passes_def
  proof (rule fold_prefix_invariant [where I = ?I])
    show "one_to_one ?n ?m (fold (pass1_step book_df bank_df) [0..<?n] init_state)"
      by (rule pass1_one_to_one)
  next
    fix ds x rest s
    assume sp: "[0..<?n] = ds @ x # rest" and inv: "one_to_one ?n ?m s"
    from upt_split [OF sp] have "x < ?n" by simp
    with inv show "one_to_one ?n ?m (pass2_step book_df bank_df x s)"
      by (rule pass2_step_one_to_one)
  qed
qed

lemma unmatched_rows_labels:
  "map fst (unmatched_rows df matched) = filter (\<lambda>i. i \<notin> matched) [0..<length df]"
proof -
  have "map fst (filter (\<lambda>(i, r). i \<notin> matched) xs) = filter (\<lambda>i. i \<notin> matched) (map fst xs)"
    for xs :: "(nat \<times> txn) list"
    by (induction xs) auto
  then show ?thesis by (simp add: unmatched_rows_def)
qed

lemma unmatched_rows_nth:
  "(i, r) \<in> set (unmatched_rows df matched) \<Longrightarrow> i < length df \<and> r = df ! i \<and> i \<notin> matched"
  by (auto simp: unmatched_rows_def in_set_enumerate_eq)

text \<open>
  Claim C2. In the result of \<open>match_transactions\<close> no book label and no bank label
  occurs in two pairs, whichever pass made them, and every label of a pair is a row of
  its table. The labels of \<open>book_only\<close> are exactly the book labels that occur in no
  pair, each once and in row order, and each carries its own row; likewise
  \<open>bank_only\<close> for the bank rows. So a row of either table is in a pair or in the
  leftover frame of its side, never both and never twice.
\<close>

theorem match_transactions_one_to_one:
  "match_transactions book_df bank_df = (pairs, book_only, bank_only) \<longrightarrow>
     distinct (map book_idx pairs) \<and> distinct (map bank_idx pairs) \<and>
     (\<forall>p \<in> set pairs. book_idx p < length book_df \<and> bank_idx p < length bank_df) \<and>
     map fst book_only = filter (\<lambda>i. i \<notin> book_idx ` set pairs) [0..<length book_df] \<and>
     map fst bank_only = filter (\<lambda>i. i \<notin> bank_idx ` set pairs) [0..<length bank_df] \<and>
     (\<forall>(i, r) \<in> set book_only. r = book_df ! i) \<and>
     (\<forall>(i, r) \<in> set bank_only. r = bank_df ! i)"
proof
  assume m: "match_transactions book_df bank_df = (pairs, book_only, bank_only)"
  let ?st = "run_passes book_df bank_df"
  have p: "pairs = matched_pairs ?st"
    and bo: "book_only = unmatched_rows book_df (book_matched ?st)"
    and so: "bank_only = unmatched_rows bank_df (bank_matched ?st)"
    using m by (auto simp: match_transactions_def Let_def)
  have inv: "one_to_one (length book_df) (length bank_df) ?st"
    by (rule run_passes_one_to_one)
  have bm: "book_matched ?st = book_idx ` set pairs" and sm: "bank_matched ?st = bank_idx ` set pairs"
    using inv p by (auto simp: one_to_one_def)
  have d: "distinct (map book_idx pairs) \<and> distinct (map bank_idx pairs)"
    using inv p by (simp add: one_to_one_def)
  have r: "\<forall>p \<in> set pairs. book_idx p < length book_df \<and> bank_idx p < length bank_df"
    using inv bm sm unfolding one_to_one_def by blast
  have l1: "map fst book_only = filter (\<lambda>i. i \<notin> book_idx ` set pairs) [0..<length book_df]"
    unfolding bo unmatched_rows_labels bm ..
  have l2: "map fst bank_only = filter (\<lambda>i. i \<notin> bank_idx ` set pairs) [0..<length bank_df]"
    unfolding so unmatched_rows_labels sm ..
  have n1: "\<forall>(i, r) \<in> set book_only. r = book_df ! i"
    unfolding bo using unmatched_rows_nth by blast
  have n2: "\<forall>(i, r) \<in> set bank_only. r = bank_df ! i"
    unfolding so using unmatched_rows_nth by blast
  show "distinct (map book_idx pairs) \<and> distinct (map bank_idx pairs) \<and>
     (\<forall>p \<in> set pairs. book_idx p < length book_df \<and> bank_idx p < length bank_df) \<and>
     map fst book_only = filter (\<lambda>i. i \<notin> book_idx ` set pairs) [0..<length book_df] \<and>
     map fst bank_only = filter (\<lambda>i. i \<notin> bank_idx ` set pairs) [0..<length bank_df] \<and>
     (\<forall>(i, r) \<in> set book_only. r = book_df ! i) \<and>
     (\<forall>(i, r) \<in> set bank_only. r = bank_df ! i)"
    using d r l1 l2 n1 n2 by blast
qed

theorem match_transactions_one_to_one_witness:
  "match_transactions sample_book sample_bank =
     ([\<lparr> book_idx = 0, bank_idx = 0, match_type = Exact \<rparr>,
       \<lparr> book_idx = 1, bank_idx = 1, match_type = Probable \<rparr>],
      [(2, sample_row ''CRJ-013'' 29 ''Capital'' 500000)],
      [(2, sample_row ''INT-001'' 30 ''Interest earned'' 15000)]) \<and>
   distinct (map book_idx
     [\<lparr> book_idx = 0, bank_idx = 0, match_type = Exact \<rparr>,
      \<lparr> book_idx = 1, bank_idx = 1, match_type = Probable \<rparr>]) \<and>
   map fst [(2 :: nat, sample_row ''CRJ-013'' 29 ''Capital'' 500000)]
     = filter (\<lambda>i. i \<notin> book_idx ` set
         [\<lparr> book_idx = 0, bank_idx = 0, match_type = Exact \<rparr>,
          \<lparr> book_idx = 1, bank_idx = 1, match_type = Probable \<rparr>]) [0..<length sample_book]"
proof -
  have m: "match_transactions sample_book sample_bank =
     ([\<lparr> book_idx = 0, bank_idx = 0, match_type = Exact \<rparr>,
       \<lparr> book_idx = 1, bank_idx = 1, match_type = Probable \<rparr>],
      [(2, sample_row ''CRJ-013'' 29 ''Capital'' 500000)],
      [(2, sample_row ''INT-001'' 30 ''Interest earned'' 15000)])"
    by code_simp
  show ?thesis
    using m match_transactions_one_to_one [THEN mp, OF m] by blast
qed

subsection \<open>Period loader\<close>












subsection \<open>The probable pass leaves no near pair\<close>

lemma pass2_step_book_mono:
  "bi' \<in> book_matched st \<Longrightarrow> bi' \<in> book_matched (pass2_step book_df bank_df bi st)"
  by (simp add: pass2_step_def add_match_def split: option.splits)

lemma pass2_step_bank_mono:
  "si \<in> bank_matched st \<Longrightarrow> si \<in> bank_matched (pass2_step book_df bank_df bi st)"
  by (simp add: pass2_step_def add_match_def split: option.splits)

lemma pass2_step_pairs_mono:
  "p \<in> set (matched_pairs st) \<Longrightarrow> p \<in> set (matched_pairs (pass2_step book_df bank_df bi st))"
  by (simp add: pass2_step_def add_match_def split: option.splits)

lemma candidate_pass2_step:
  assumes "\<not> candidate cond bank_df (bank_matched st) b si"
  shows "\<not> candidate cond bank_df (bank_matched (pass2_step book_df bank_df bi st)) b si"
proof
  assume c: "candidate cond bank_df (bank_matched (pass2_step book_df bank_df bi st)) b si"
  then have "si \<notin> bank_matched (pass2_step book_df bank_df bi st)"
    by (simp add: candidate_def)
  then have "si \<notin> bank_matched st" using pass2_step_bank_mono by fast
  with c have "candidate cond bank_df (bank_matched st) b si"
    by (simp add: candidate_def)
  with assms show False by simp
qed

lemma pass2_step_unmatched:
  assumes "bi \<notin> book_matched (pass2_step book_df bank_df bi st)"
  shows "\<not> candidate probable_cond bank_df (bank_matched (pass2_step book_df bank_df bi st))
           (book_df ! bi) si"
proof (cases "scan_bank probable_cond bank_df (bank_matched st) (book_df ! bi)")
  case None
  then have "\<not> candidate probable_cond bank_df (bank_matched st) (book_df ! bi) si"
    by (simp add: scan_bank_None)
  then show ?thesis by (rule candidate_pass2_step)
next
  case (Some sj)
  then have "bi \<in> book_matched (pass2_step book_df bank_df bi st)"
    by (simp add: pass2_step_def add_match_def)
  with assms show ?thesis by simp
qed

lemma pass2_leaves_no_candidate:
  assumes "bi < length book_df"
    and "bi \<notin> book_matched (fold (pass2_step book_df bank_df) [0..<length book_df] st0)"
  shows "\<not> candidate probable_cond bank_df
           (bank_matched (fold (pass2_step book_df bank_df) [0..<length book_df] st0))
           (book_df ! bi) si"
proof -
  let ?I = "\<lambda>ds (st :: match_state). \<forall>bi \<in> set ds. bi \<notin> book_matched st \<longrightarrow>
              (\<forall>si. \<not> candidate probable_cond bank_df (bank_matched st) (book_df ! bi) si)"
  have "?I [0..<length book_df] (fold (pass2_step book_df bank_df) [0..<length book_df] st0)"
  proof (rule fold_prefix_invariant [where I = ?I])
    show "?I [] st0" by simp
  next
    fix ds x rest s
    assume inv: "?I ds s"
    let ?s' = "pass2_step book_df bank_df x s"
    show "?I (ds @ [x]) ?s'"
    proof (intro ballI impI allI)
      fix bj sj
      assume bj: "bj \<in> set (ds @ [x])" and un: "bj \<notin> book_matched ?s'"
      show "\<not> candidate probable_cond bank_df (bank_matched ?s') (book_df ! bj) sj"
      proof (cases "bj = x")
        case True
        with un have "x \<notin> book_matched ?s'" by simp
        then have "\<not> candidate probable_cond bank_df (bank_matched ?s') (book_df ! x) sj"
          by (rule pass2_step_unmatched)
        with True show ?thesis by simp
      next
        case False
        then have in_ds: "bj \<in> set ds" using bj by simp
        have "bj \<notin> book_matched s"
        proof
          assume "bj \<in> book_matched s"
          then have "bj \<in> book_matched ?s'" by (rule pass2_step_book_mono)
          with un show False by simp
        qed
        with in_ds inv
        have "\<not> candidate probable_cond bank_df (bank_matched s) (book_df ! bj) sj"
          by simp
        then show ?thesis by (rule candidate_pass2_step)
      qed
    qed
  qed
  then show ?thesis using assms by simp
qed

lemma days_within:
  assumes "\<bar>t\<bar> \<le> 3 * ns_per_day"
  shows "\<bar>t div ns_per_day\<bar> \<le> 3"
proof -
  have pos: "0 < ns_per_day" by (simp add: ns_per_day_def)
  have up: "(3 * ns_per_day) div ns_per_day = 3" using pos by simp
  have lo: "(- (3 * ns_per_day)) div ns_per_day = - 3"
    by (simp add: ns_per_day_def)
  have "t div ns_per_day \<le> (3 * ns_per_day) div ns_per_day"
    using assms pos by (intro zdiv_mono1) auto
  moreover have "(- (3 * ns_per_day)) div ns_per_day \<le> t div ns_per_day"
    using assms pos by (intro zdiv_mono1) auto
  ultimately show ?thesis using up lo by linarith
qed

lemma probable_cond_near:
  assumes "Date b = Some x" and "Date s = Some y"
    and "py_round2 (amount b) = py_round2 (amount s)" and "\<bar>x - y\<bar> \<le> 3 * ns_per_day"
  shows "probable_cond b s"
  using assms days_within [of "x - y"]
  by (simp add: probable_cond_def days_diff_def DATE_PROXIMITY_DAYS_def)

lemma single_pair:
  assumes "\<not> exact_cond b s"
  shows "match_transactions [b] [s] =
     (if probable_cond b s
      then ([\<lparr> book_idx = 0, bank_idx = 0, match_type = Probable \<rparr>], [], [])
      else ([], [(0, b)], [(0, s)]))"
  using assms
  by (simp add: match_transactions_def run_passes_def pass1_step_def pass2_step_def
        scan_bank_def init_state_def add_match_def unmatched_rows_def Let_def)

lemma probable_at_three:
  assumes "Date b = Some x" and "Date s = Some y"
    and "py_round2 (amount b) = py_round2 (amount s)" and "\<bar>x - y\<bar> = 3 * ns_per_day"
  shows "probable_cond b s"
  using assms probable_cond_near [of b x s y] by simp

lemma not_probable_at_four:
  assumes "Date b = Some x" and "Date s = Some y" and "\<bar>x - y\<bar> = 4 * ns_per_day"
  shows "\<not> probable_cond b s"
proof -
  have "x - y = 4 * ns_per_day \<or> x - y = - 4 * ns_per_day" using assms(3) by linarith
  then have "\<bar>(x - y) div ns_per_day\<bar> = 4"
    by (auto simp: ns_per_day_def)
  then show ?thesis using assms(1,2)
    by (simp add: probable_cond_def days_diff_def DATE_PROXIMITY_DAYS_def)
qed

text \<open>
  Claim C3. After \<open>match_transactions\<close> no row of \<open>book_only\<close> and row of
  \<open>bank_only\<close> have the same amount rounded to two decimals and dates at most three
  days apart: whenever the rounded amounts agree and both rows are dated, the dates are
  more than three days apart. The window includes its boundary: a book row and a bank
  row with different references, the same rounded amount and dates exactly three days
  apart are matched as Probable, and with dates exactly four days apart they are left
  unmatched.
\<close>

theorem no_probable_pair_left_unmatched:
  "(match_transactions book_df bank_df = (pairs, book_only, bank_only) \<longrightarrow>
      (\<forall>(i, b) \<in> set book_only. \<forall>(j, s) \<in> set bank_only. \<forall>x y.
          Date b = Some x \<and> Date s = Some y \<and> py_round2 (amount b) = py_round2 (amount s)
          \<longrightarrow> 3 * ns_per_day < \<bar>x - y\<bar>)) \<and>
   (upper (Reference b) \<noteq> upper (Reference s) \<and> py_round2 (amount b) = py_round2 (amount s) \<and>
    Date b = Some x \<and> Date s = Some y \<longrightarrow>
      (\<bar>x - y\<bar> = 3 * ns_per_day \<longrightarrow>
         match_transactions [b] [s]
           = ([\<lparr> book_idx = 0, bank_idx = 0, match_type = Probable \<rparr>], [], [])) \<and>
      (\<bar>x - y\<bar> = 4 * ns_per_day \<longrightarrow>
         match_transactions [b] [s] = ([], [(0, b)], [(0, s)])))"
proof (rule conjI; rule impI)
  assume m: "match_transactions book_df bank_df = (pairs, book_only, bank_only)"
  let ?st = "run_passes book_df bank_df"
  have bo: "book_only = unmatched_rows book_df (book_matched ?st)"
    and so: "bank_only = unmatched_rows bank_df (bank_matched ?st)"
    using m by (auto simp: match_transactions_def Let_def)
  show "\<forall>(i, b) \<in> set book_only. \<forall>(j, s) \<in> set bank_only. \<forall>x y.
          Date b = Some x \<and> Date s = Some y \<and> py_round2 (amount b) = py_round2 (amount s)
          \<longrightarrow> 3 * ns_per_day < \<bar>x - y\<bar>"
  proof (clarify, rule ccontr)
    fix i b j s x y
    assume ib: "(i, b) \<in> set book_only" and js: "(j, s) \<in> set bank_only"
      and d: "Date b = Some x" "Date s = Some y"
      and a: "py_round2 (amount b) = py_round2 (amount s)"
      and near: "\<not> 3 * ns_per_day < \<bar>x - y\<bar>"
    from ib bo unmatched_rows_nth
    have i: "i < length book_df" "b = book_df ! i" "i \<notin> book_matched ?st" by blast+
    from js so unmatched_rows_nth
    have j: "j < length bank_df" "s = bank_df ! j" "j \<notin> bank_matched ?st" by blast+
    have "probable_cond b s" using d a near by (intro probable_cond_near) auto
    then have "candidate probable_cond bank_df (bank_matched ?st) (book_df ! i) j"
      using i j by (simp add: candidate_def)
    moreover have "\<not> candidate probable_cond bank_df (bank_matched ?st) (book_df ! i) j"
      using i(1,3) unfolding run_passes_def by (rule pass2_leaves_no_candidate)
    ultimately show False by simp
  qed
next
  assume h: "upper (Reference b) \<noteq> upper (Reference s) \<and>
    py_round2 (amount b) = py_round2 (amount s) \<and> Date b = Some x \<and> Date s = Some y"
  then have ne: "\<not> exact_cond b s" by (simp add: exact_cond_def)
  show "(\<bar>x - y\<bar> = 3 * ns_per_day \<longrightarrow>
         match_transactions [b] [s]
           = ([\<lparr> book_idx = 0, bank_idx = 0, match_type = Probable \<rparr>], [], [])) \<and>
      (\<bar>x - y\<bar> = 4 * ns_per_day \<longrightarrow>
         match_transactions [b] [s] = ([], [(0, b)], [(0, s)]))"
    using h probable_at_three [of b x s y] not_probable_at_four [of b x s y]
    by (auto simp: single_pair [OF ne])
qed

theorem no_probable_pair_left_unmatched_witness:
  "match_transactions [sample_row ''CPJ-002'' 2 ''Rent'' (- 250)]
                      [sample_row ''CHQ 7781'' 5 ''Cheque'' (- 250)]
     = ([\<lparr> book_idx = 0, bank_idx = 0, match_type = Probable \<rparr>], [], []) \<and>
   match_transactions [sample_row ''CPJ-002'' 2 ''Rent'' (- 250)]
                      [sample_row ''CHQ 7781'' 6 ''Cheque'' (- 250)]
     = ([], [(0, sample_row ''CPJ-002'' 2 ''Rent'' (- 250))],
            [(0, sample_row ''CHQ 7781'' 6 ''Cheque'' (- 250))]) \<and>
   3 * ns_per_day < \<bar>2 * ns_per_day - 6 * ns_per_day\<bar>"
proof -
  let ?b = "sample_row ''CPJ-002'' 2 ''Rent'' (- 250)"
  let ?s5 = "sample_row ''CHQ 7781'' 5 ''Cheque'' (- 250)"
  let ?s6 = "sample_row ''CHQ 7781'' 6 ''Cheque'' (- 250)"
  have refs: "upper ''CPJ-002'' \<noteq> upper ''CHQ 7781''" by code_simp
  have h5: "upper (Reference ?b) \<noteq> upper (Reference ?s5) \<and>
      py_round2 (amount ?b) = py_round2 (amount ?s5) \<and>
      Date ?b = Some (2 * ns_per_day) \<and> Date ?s5 = Some (5 * ns_per_day)"
    using refs by (simp add: sample_row_def)
  have h6: "upper (Reference ?b) \<noteq> upper (Reference ?s6) \<and>
      py_round2 (amount ?b) = py_round2 (amount ?s6) \<and>
      Date ?b = Some (2 * ns_per_day) \<and> Date ?s6 = Some (6 * ns_per_day)"
    using refs by (simp add: sample_row_def)
  have d5: "\<bar>2 * ns_per_day - 5 * ns_per_day\<bar> = 3 * ns_per_day" by (simp add: ns_per_day_def)
  have d6: "\<bar>2 * ns_per_day - 6 * ns_per_day\<bar> = 4 * ns_per_day" by (simp add: ns_per_day_def)
  have m5: "match_transactions [?b] [?s5]
      = ([\<lparr> book_idx = 0, bank_idx = 0, match_type = Probable \<rparr>], [], [])"
    using no_probable_pair_left_unmatched
      [of "[]" "[]" "[]" "[]" "[]" ?b ?s5 "2 * ns_per_day" "5 * ns_per_day",
       THEN conjunct2, THEN mp, OF h5, THEN conjunct1, THEN mp, OF d5] .
  have m6: "match_transactions [?b] [?s6] = ([], [(0, ?b)], [(0, ?s6)])"
    using no_probable_pair_left_unmatched
      [of "[]" "[]" "[]" "[]" "[]" ?b ?s6 "2 * ns_per_day" "6 * ns_per_day",
       THEN conjunct2, THEN mp, OF h6, THEN conjunct2, THEN mp, OF d6] .
  have far: "3 * ns_per_day < \<bar>2 * ns_per_day - 6 * ns_per_day\<bar>"
    using no_probable_pair_left_unmatched
      [of "[?b]" "[?s6]" "[]" "[(0, ?b)]" "[(0, ?s6)]" ?b ?s6 0 0,
       THEN conjunct1, THEN mp, OF m6] h6
    by simp
  show ?thesis using m5 m6 far by simp
qed

subsection \<open>The exact pass\<close>

lemma upt_split_prefix: "[0..<n] = ds @ x # rest \<Longrightarrow> j \<in> set ds \<Longrightarrow> j < n"
proof -
  assume e: "[0..<n] = ds @ x # rest" and j: "j \<in> set ds"
  then have "j \<in> set [0..<n]" by simp
  then show ?thesis by simp
qed

lemma fold_pass2_pairs_mono:
  "p \<in> set (matched_pairs st0) \<Longrightarrow>
     p \<in> set (matched_pairs (fold (pass2_step book_df bank_df) xs st0))"
proof (induction xs arbitrary: st0)
  case Nil
  then show ?case by simp
next
  case (Cons x xs)
  from Cons.prems have "p \<in> set (matched_pairs (pass2_step book_df bank_df x st0))"
    by (rule pass2_step_pairs_mono)
  then show ?case using Cons.IH by simp
qed

lemma pass1_matches_unique_pair:
  assumes bi: "bi < length book_df" and si: "si < length bank_df"
    and ex: "exact_cond (book_df ! bi) (bank_df ! si)"
    and ub: "\<forall>j < length book_df. j \<noteq> bi \<longrightarrow> \<not> exact_cond (book_df ! j) (bank_df ! si)"
    and us: "\<forall>j < length bank_df. j \<noteq> si \<longrightarrow> \<not> exact_cond (book_df ! bi) (bank_df ! j)"
  shows "\<lparr> book_idx = bi, bank_idx = si, match_type = Exact \<rparr>
           \<in> set (matched_pairs (fold (pass1_step book_df bank_df) [0..<length book_df] init_state))"
proof -
  let ?n = "length book_df"
  let ?P = "\<lparr> book_idx = bi, bank_idx = si, match_type = Exact \<rparr>"
  let ?I = "\<lambda>ds (st :: match_state).
      bank_matched st = bank_idx ` set (matched_pairs st) \<and>
      (\<forall>p \<in> set (matched_pairs st).
          book_idx p \<in> set ds \<and> exact_cond (book_df ! book_idx p) (bank_df ! bank_idx p)) \<and>
      (bi \<in> set ds \<longrightarrow> ?P \<in> set (matched_pairs st))"
  have "?I [0..<?n] (fold (pass1_step book_df bank_df) [0..<?n] init_state)"
  proof (rule fold_prefix_invariant [where I = ?I])
    show "?I [] init_state" by (simp add: init_state_def)
  next
    fix ds x rest s
    assume sp: "[0..<?n] = ds @ x # rest" and inv: "?I ds s"
    from upt_split [OF sp] have x: "x < ?n" "x \<notin> set ds" by auto
    from inv have bm: "bank_matched s = bank_idx ` set (matched_pairs s)"
      and pr: "\<forall>p \<in> set (matched_pairs s).
          book_idx p \<in> set ds \<and> exact_cond (book_df ! book_idx p) (bank_df ! bank_idx p)"
      and tg: "bi \<in> set ds \<longrightarrow> ?P \<in> set (matched_pairs s)"
      by blast+
    show "?I (ds @ [x]) (pass1_step book_df bank_df x s)"
    proof (cases "scan_bank exact_cond bank_df (bank_matched s) (book_df ! x)")
      case None
      then have st: "pass1_step book_df bank_df x s = s" by (simp add: pass1_step_def)
      have "x \<noteq> bi"
      proof
        assume xb: "x = bi"
        have "si \<notin> bank_matched s"
        proof
          assume "si \<in> bank_matched s"
          then obtain p where p: "p \<in> set (matched_pairs s)" "bank_idx p = si"
            using bm by auto
          then have in_ds: "book_idx p \<in> set ds"
            and e: "exact_cond (book_df ! book_idx p) (bank_df ! si)"
            using pr by auto
          have "book_idx p < ?n" using sp in_ds by (rule upt_split_prefix)
          moreover have "book_idx p \<noteq> bi" using xb x(2) in_ds by auto
          ultimately show False using ub e by simp
        qed
        then have "candidate exact_cond bank_df (bank_matched s) (book_df ! bi) si"
          using si ex by (simp add: candidate_def)
        with None xb show False by (simp add: scan_bank_None)
      qed
      then show ?thesis using bm pr tg st by auto
    next
      case (Some sj)
      then have st: "pass1_step book_df bank_df x s = add_match s x sj Exact"
        by (simp add: pass1_step_def)
      from scan_bank_Some [OF Some]
      have c: "sj < length bank_df" "exact_cond (book_df ! x) (bank_df ! sj)"
        by (auto simp: candidate_def)
      have eq: "x = bi \<Longrightarrow> sj = si" using c us by auto
      have 1: "bank_matched (add_match s x sj Exact)
                 = bank_idx ` set (matched_pairs (add_match s x sj Exact))"
        using bm by (simp add: add_match_def)
      have 2: "\<forall>p \<in> set (matched_pairs (add_match s x sj Exact)).
          book_idx p \<in> set (ds @ [x]) \<and> exact_cond (book_df ! book_idx p) (bank_df ! bank_idx p)"
        using pr c by (auto simp: add_match_def)
      have 3: "bi \<in> set (ds @ [x]) \<longrightarrow> ?P \<in> set (matched_pairs (add_match s x sj Exact))"
        using tg eq by (auto simp: add_match_def)
      show ?thesis unfolding st using 1 2 3 by blast
    qed
  qed
  then show ?thesis using bi by simp
qed

text \<open>
  Two book rows with the reference and amount of the one bank row: the first book row
  in row order takes the bank row, the second is left in \<open>book_only\<close> although it
  agrees with the bank row on reference and amount; with the book rows in the other
  order it is the other slip that is matched.
\<close>

theorem exact_pair_order_counterexample:
  "exact_cond (dup_book ! 1) (dup_bank ! 0) \<and>
   match_transactions dup_book dup_bank =
     ([\<lparr> book_idx = 0, bank_idx = 0, match_type = Exact \<rparr>],
      [(1, sample_row ''CRJ-001'' 2 ''Sales, second slip'' 1000)], []) \<and>
   exact_cond (rev dup_book ! 1) (dup_bank ! 0) \<and>
   match_transactions (rev dup_book) dup_bank =
     ([\<lparr> book_idx = 0, bank_idx = 0, match_type = Exact \<rparr>],
      [(1, sample_row ''CRJ-001'' 1 ''Sales, first slip'' 1000)], [])"
  by code_simp

text \<open>
  Claim C4, as amended. A book row and a bank row with the same upper-cased reference
  and the same amount rounded to two decimals are put in one pair of kind Exact,
  wherever they stand in their tables, provided no other book row and no other bank row
  has that reference and rounded amount.
\<close>

theorem unique_exact_pair_matched:
  "bi < length book_df \<and> si < length bank_df \<and>
   exact_cond (book_df ! bi) (bank_df ! si) \<and>
   (\<forall>j < length book_df. j \<noteq> bi \<longrightarrow> \<not> exact_cond (book_df ! j) (bank_df ! si)) \<and>
   (\<forall>j < length bank_df. j \<noteq> si \<longrightarrow> \<not> exact_cond (book_df ! bi) (bank_df ! j)) \<longrightarrow>
   \<lparr> book_idx = bi, bank_idx = si, match_type = Exact \<rparr>
      \<in> set (fst (match_transactions book_df bank_df))"
proof
  assume h: "bi < length book_df \<and> si < length bank_df \<and>
   exact_cond (book_df ! bi) (bank_df ! si) \<and>
   (\<forall>j < length book_df. j \<noteq> bi \<longrightarrow> \<not> exact_cond (book_df ! j) (bank_df ! si)) \<and>
   (\<forall>j < length bank_df. j \<noteq> si \<longrightarrow> \<not> exact_cond (book_df ! bi) (bank_df ! j))"
  then have "\<lparr> book_idx = bi, bank_idx = si, match_type = Exact \<rparr>
           \<in> set (matched_pairs (fold (pass1_step book_df bank_df) [0..<length book_df] init_state))"
    by (intro pass1_matches_unique_pair) simp_all
  then have "\<lparr> book_idx = bi, bank_idx = si, match_type = Exact \<rparr>
           \<in> set (matched_pairs (run_passes book_df bank_df))"
    unfolding run_passes_def by (rule fold_pass2_pairs_mono)
  then show "\<lparr> book_idx = bi, bank_idx = si, match_type = Exact \<rparr>
      \<in> set (fst (match_transactions book_df bank_df))"
    by (simp add: match_transactions_def Let_def)
qed

theorem unique_exact_pair_matched_witness:
  "exact_cond (sample_book ! 0) (sample_bank ! 0) \<and>
   \<not> exact_cond (sample_book ! 1) (sample_bank ! 0) \<and>
   \<not> exact_cond (sample_book ! 0) (sample_bank ! 1) \<and>
   \<lparr> book_idx = 0, bank_idx = 0, match_type = Exact \<rparr>
      \<in> set (fst (match_transactions sample_book sample_bank))"
proof -
  have len: "length sample_book = 3" "length sample_bank = 3"
    by (simp_all add: sample_book_def sample_bank_def)
  have e: "exact_cond (sample_book ! 0) (sample_bank ! 0)" by code_simp
  have b1: "\<not> exact_cond (sample_book ! 1) (sample_bank ! 0)" by code_simp
  have b2: "\<not> exact_cond (sample_book ! 2) (sample_bank ! 0)" by code_simp
  have s1: "\<not> exact_cond (sample_book ! 0) (sample_bank ! 1)" by code_simp
  have s2: "\<not> exact_cond (sample_book ! 0) (sample_bank ! 2)" by code_simp
  have ub: "\<forall>j < length sample_book. j \<noteq> 0 \<longrightarrow> \<not> exact_cond (sample_book ! j) (sample_bank ! 0)"
  proof (intro allI impI)
    fix j assume "j < length sample_book" "j \<noteq> 0"
    then have "j = 1 \<or> j = 2" using len by arith
    then show "\<not> exact_cond (sample_book ! j) (sample_bank ! 0)" using b1 b2 by auto
  qed
  have us: "\<forall>j < length sample_bank. j \<noteq> 0 \<longrightarrow> \<not> exact_cond (sample_book ! 0) (sample_bank ! j)"
  proof (intro allI impI)
    fix j assume "j < length sample_bank" "j \<noteq> 0"
    then have "j = 1 \<or> j = 2" using len by arith
    then show "\<not> exact_cond (sample_book ! 0) (sample_bank ! j)" using s1 s2 by auto
  qed
  have "\<lparr> book_idx = 0, bank_idx = 0, match_type = Exact \<rparr>
      \<in> set (fst (match_transactions sample_book sample_bank))"
    using unique_exact_pair_matched [of 0 sample_book 0 sample_bank] e ub us len by simp
  then show ?thesis using e b1 s1 by simp
qed

end
